theory Spec2Isabelle
  imports Main "HOL-Library.Multiset"
begin

section \<open>Data model\<close>

text \<open>
  The structs of the program, one record each. Go allows the same field name in several
  structs; here a field that occurs in more than one struct carries a suffix naming its
  struct (\<open>Name_t\<close> of a Table, \<open>Name_c\<close> of a ColumnDefinition, \<open>Name_e\<close> of an Enum,
  \<open>Name_fk\<close> of a ForeignKeyDefinition, \<open>Table_ci\<close> and \<open>Column_ci\<close> of a ColumnIdentity).
  Go strings are byte sequences compared bytewise; they are \<open>string\<close> here.
\<close>

record Config =
  Exclude :: "string list"
  PostgresURL :: string

record ForeignKeyDefinition =
  Column_fk :: string
  Name_fk :: string
  RefTable :: string
  RefColumn :: string

record ColumnDefinition =
  Name_c :: string
  DataType :: string
  CustomType :: bool
  Description_c :: string
  IsNullable :: bool

record Table =
  Name_t :: string
  Description_t :: string
  KeyColumns :: "ColumnDefinition list"
  Columns :: "ColumnDefinition list"
  ForeignKeys :: "ForeignKeyDefinition list"

record Enum =
  Name_e :: string
  Description_e :: string
  Values :: "string list"

record Schema =
  Tables :: "Table list"
  Enums :: "Enum list"

record ColumnIdentity =
  Table_ci :: string
  Column_ci :: string

record ConstraintDefinition =
  LocalColumns :: "ColumnIdentity list"
  ForeignColumns :: "ColumnIdentity list"
  ConstraintName :: string
  ConstraintType :: string

text \<open>
  A Go \<open>error\<close> is a value with a message. The program returns two sorts of them: those
  handed up unchanged from the database driver, the row scanner or the JSON decoder
  (\<open>DriverError\<close>), and those it builds itself with \<open>fmt.Errorf\<close> (\<open>Errorf\<close>, carrying the
  formatted message).
\<close>

datatype error = DriverError string | Errorf string

fun errorString :: "error \<Rightarrow> string" where
  "errorString (DriverError msg) = msg"
| "errorString (Errorf msg) = msg"

section \<open>The database as seen by the four queries\<close>

text \<open>
  One row of \<open>information_schema.columns\<close>, joined with its description, as the column
  query of \<open>getColumns\<close> reads it. The three numeric attributes are of the SQL domain
  \<open>cardinal_number\<close> (a non-negative integer) and may be NULL; the joined description may
  be NULL.
\<close>

record ColumnRow =
  column_name :: string
  is_nullable :: string
  data_type :: string
  udt_name :: string
  numeric_precision :: "nat option"
  numeric_scale :: "nat option"
  character_maximum_length :: "nat option"
  description :: "string option"

text \<open>
  One enum type of \<open>pg_type\<close> joined with its labels in \<open>pg_enum\<close>: the type name, the
  labels ordered by \<open>enumsortorder\<close>, and the description (NULL when there is none).
\<close>

record EnumRow =
  typname :: string
  enumlabels :: "string list"
  enum_description :: "string option"

text \<open>
  The answers of the database to the four queries, for a schema name (and a table name).
  A query either fails as a whole (\<open>Inl\<close>) or yields rows in the order the database
  returns them; reading one row may fail too (\<open>rows.Scan\<close>, \<open>sqrlx.ScanStruct\<close>,
  \<open>json.Unmarshal\<close>), so every row is itself a result. The rows of the column query come
  in ascending \<open>ordinal_position\<close> (its \<open>ORDER BY\<close>). A constraint row is the decoded
  JSON object. No assumption is made on what the rows contain.
\<close>

record Catalog =
  tableRows :: "string \<Rightarrow> error + (error + string \<times> string) list"
  columnRows :: "string \<Rightarrow> string \<Rightarrow> error + (error + ColumnRow) list"
  constraintRows :: "string \<Rightarrow> string \<Rightarrow> error + (error + ConstraintDefinition) list"
  enumRows :: "string \<Rightarrow> error + (error + EnumRow) list"

section \<open>SQL expressions and library functions used by the queries\<close>

text \<open>The character of a decimal digit (used below ten only).\<close>

definition digitChar :: "nat \<Rightarrow> char" where
  "digitChar n = ''0123456789'' ! n"

text \<open>The text of a non-negative integer, as SQL's \<open>CONCAT\<close> renders it: decimal digits.\<close>

function showNat :: "nat \<Rightarrow> string" where
  "showNat n = (if n < 10 then [digitChar n] else showNat (n div 10) @ [digitChar (n mod 10)])"
  by pat_completeness auto
termination
  by (relation "measure (\<lambda>n. n)") auto

declare showNat.simps [simp del]

text \<open>SQL's \<open>CONCAT\<close>: the texts of its arguments one after the other, a NULL contributing nothing.\<close>

fun sqlConcat :: "string option list \<Rightarrow> string" where
  "sqlConcat [] = []"
| "sqlConcat (None # args) = sqlConcat args"
| "sqlConcat (Some s # args) = s @ sqlConcat args"

text \<open>SQL's \<open>COALESCE(x, '')\<close>.\<close>

fun coalesceEmpty :: "string option \<Rightarrow> string" where
  "coalesceEmpty None = []"
| "coalesceEmpty (Some s) = s"

text \<open>
  SQL's \<open>string_agg(e.enumlabel, '|' ORDER BY e.enumsortorder)\<close> over the labels of one
  enum type, given in that order: the labels with the separator between them. The group of
  an enum type is never empty (the query joins \<open>pg_enum\<close> with an inner join).
\<close>

fun string_agg :: "string list \<Rightarrow> string \<Rightarrow> string" where
  "string_agg [] sep = []"
| "string_agg [x] sep = x"
| "string_agg (x # y # ys) sep = x @ sep @ string_agg (y # ys) sep"

text \<open>
  Go's \<open>strings.Split(s, sep)\<close> for a separator of one byte: the pieces of \<open>s\<close> between the
  occurrences of the separator, so one piece more than there are occurrences (the empty
  string gives one empty piece). \<open>splitFrom\<close> carries the piece being read.
\<close>

fun splitFrom :: "string \<Rightarrow> char \<Rightarrow> string \<Rightarrow> string list" where
  "splitFrom cur sep [] = [cur]"
| "splitFrom cur sep (c # s) =
     (if c = sep then cur # splitFrom [] sep s else splitFrom (cur @ [c]) sep s)"

definition Split :: "string \<Rightarrow> char \<Rightarrow> string list" where
  "Split s sep = splitFrom [] sep s"

section \<open>getTableNames\<close>

text \<open>The inner loop over the exclusion list: does some entry equal the name?\<close>

fun isExcluded :: "string list \<Rightarrow> string \<Rightarrow> bool" where
  "isExcluded [] name = False"
| "isExcluded (exc # exclude) name = (if exc = name then True else isExcluded exclude name)"

text \<open>What \<open>rows.Scan(&table.Name, &table.Description)\<close> leaves in a fresh \<open>Table{}\<close>.\<close>

definition scanTable :: "string \<times> string \<Rightarrow> Table" where
  "scanTable row = \<lparr>Name_t = fst row, Description_t = snd row,
     KeyColumns = [], Columns = [], ForeignKeys = []\<rparr>"

fun tableRowsLoop :: "string list \<Rightarrow> (error + string \<times> string) list \<Rightarrow> Table list \<Rightarrow> error + Table list" where
  "tableRowsLoop exclude [] tables = Inr tables"
| "tableRowsLoop exclude (Inl err # rows) tables = Inl err"
| "tableRowsLoop exclude (Inr row # rows) tables =
     (let table = scanTable row in
      if isExcluded exclude (Name_t table) then tableRowsLoop exclude rows tables
      else tableRowsLoop exclude rows (tables @ [table]))"

definition getTableNames :: "Catalog \<Rightarrow> string \<Rightarrow> string list \<Rightarrow> error + Table list" where
  "getTableNames db schema exclude =
     (case tableRows db schema of
        Inl err \<Rightarrow> Inl err
      | Inr rows \<Rightarrow> tableRowsLoop exclude rows [])"

section \<open>getColumns\<close>

text \<open>
  The select list of the column query, evaluated on one row, and scanned into a
  ColumnDefinition by the struct tags: \<open>is_nullable\<close>, \<open>custom_type\<close>, \<open>description\<close> and
  the \<open>CASE data_type ... END AS data_type\<close> built with \<open>sq.Case\<close> (building it cannot
  fail: the expression is fixed and has its WHEN parts).
\<close>

definition dataTypeCase :: "ColumnRow \<Rightarrow> string" where
  "dataTypeCase r =
     (if data_type r = ''USER-DEFINED'' then udt_name r
      else if data_type r = ''numeric'' then
        sqlConcat [Some ''Number('', map_option showNat (numeric_precision r), Some '','',
                   map_option showNat (numeric_scale r), Some '')'']
      else if data_type r = ''character'' then
        sqlConcat [Some ''Char('', map_option showNat (character_maximum_length r), Some '')'']
      else if data_type r = ''timestamp with time zone'' then ''timestamp''
      else data_type r)"

definition scanColumn :: "ColumnRow \<Rightarrow> ColumnDefinition" where
  "scanColumn r = \<lparr>Name_c = column_name r,
     DataType = dataTypeCase r,
     CustomType = (if data_type r = ''USER-DEFINED'' then True else False),
     Description_c = coalesceEmpty (description r),
     IsNullable = (if is_nullable r = ''NO'' then False else True)\<rparr>"

fun columnRowsLoop :: "(error + ColumnRow) list \<Rightarrow> ColumnDefinition list \<Rightarrow> error + ColumnDefinition list" where
  "columnRowsLoop [] cols = Inr cols"
| "columnRowsLoop (Inl err # rows) cols = Inl err"
| "columnRowsLoop (Inr r # rows) cols = columnRowsLoop rows (cols @ [scanColumn r])"

definition getColumns :: "Catalog \<Rightarrow> string \<Rightarrow> string \<Rightarrow> error + ColumnDefinition list" where
  "getColumns db schema tableName =
     (case columnRows db schema tableName of
        Inl err \<Rightarrow> Inl err
      | Inr rows \<Rightarrow> columnRowsLoop rows [])"

section \<open>getConstraints\<close>

fun constraintRowsLoop :: "(error + ConstraintDefinition) list \<Rightarrow> ConstraintDefinition list \<Rightarrow> error + ConstraintDefinition list" where
  "constraintRowsLoop [] cols = Inr cols"
| "constraintRowsLoop (Inl err # rows) cols = Inl err"
| "constraintRowsLoop (Inr col # rows) cols = constraintRowsLoop rows (cols @ [col])"

definition getConstraints :: "Catalog \<Rightarrow> string \<Rightarrow> string \<Rightarrow> error + ConstraintDefinition list" where
  "getConstraints db schema tableName =
     (case constraintRows db schema tableName of
        Inl err \<Rightarrow> Inl err
      | Inr rows \<Rightarrow> constraintRowsLoop rows [])"

section \<open>getEnums\<close>

text \<open>
  One row of the enum query is the type name, \<open>string_agg\<close> of its labels with \<open>'|'\<close>, and
  the description; the loop splits the second at \<open>"|"\<close>.
\<close>

definition scanEnum :: "EnumRow \<Rightarrow> Enum" where
  "scanEnum r =
     (let name = typname r;
          valsRaw = string_agg (enumlabels r) ''|'';
          description = coalesceEmpty (enum_description r)
      in \<lparr>Name_e = name, Description_e = description, Values = Split valsRaw CHR ''|''\<rparr>)"

fun enumRowsLoop :: "(error + EnumRow) list \<Rightarrow> Enum list \<Rightarrow> error + Enum list" where
  "enumRowsLoop [] enums = Inr enums"
| "enumRowsLoop (Inl err # rows) enums = Inl err"
| "enumRowsLoop (Inr r # rows) enums = enumRowsLoop rows (enums @ [scanEnum r])"

definition getEnums :: "Catalog \<Rightarrow> string \<Rightarrow> error + Enum list" where
  "getEnums db schema =
     (case enumRows db schema of
        Inl err \<Rightarrow> Inl (Errorf (''Looking up enums '' @ errorString err))
      | Inr rows \<Rightarrow> enumRowsLoop rows [])"

section \<open>getFullSchema\<close>

text \<open>
  The loop over the local columns of a PRIMARY KEY constraint: the first column of another
  table ends the run; otherwise the column's name is entered in \<open>pkCols\<close>.
\<close>

fun primaryKeyLoop :: "string \<Rightarrow> ConstraintDefinition \<Rightarrow> ColumnIdentity list \<Rightarrow>
    (string \<rightharpoonup> ConstraintDefinition) \<Rightarrow> error + (string \<rightharpoonup> ConstraintDefinition)" where
  "primaryKeyLoop tableName constr [] pkCols = Inr pkCols"
| "primaryKeyLoop tableName constr (column # columns) pkCols =
     (if Table_ci column \<noteq> tableName then
        Inl (Errorf (''Table '' @ tableName @ '' had primary key '' @ ConstraintName constr
                     @ '' in '' @ Table_ci column))
      else primaryKeyLoop tableName constr columns (pkCols(Column_ci column \<mapsto> constr)))"

text \<open>The loop over the constraints of one table, with its \<open>switch\<close> on the constraint type.\<close>

fun constraintsLoop :: "string \<Rightarrow> ConstraintDefinition list \<Rightarrow>
    (string \<rightharpoonup> ConstraintDefinition) \<Rightarrow> ForeignKeyDefinition list \<Rightarrow>
    error + (string \<rightharpoonup> ConstraintDefinition) \<times> ForeignKeyDefinition list" where
  "constraintsLoop tableName [] pkCols fkCols = Inr (pkCols, fkCols)"
| "constraintsLoop tableName (constr # constraints) pkCols fkCols =
     (if ConstraintType constr = ''PRIMARY KEY'' then
        (case primaryKeyLoop tableName constr (LocalColumns constr) pkCols of
           Inl err \<Rightarrow> Inl err
         | Inr pkCols' \<Rightarrow> constraintsLoop tableName constraints pkCols' fkCols)
      else if ConstraintType constr = ''FOREIGN KEY'' then
        (if length (LocalColumns constr) \<noteq> 1 \<or> length (ForeignColumns constr) \<noteq> 1 then
           Inl (Errorf (''foreign keys should have 1 local, 1 foreign column. See ''
                        @ ConstraintName constr))
         else
           (let localCol = LocalColumns constr ! 0 in
            if Table_ci localCol \<noteq> tableName then
              Inl (Errorf (''Table '' @ tableName @ '' had foreign key '' @ ConstraintName constr
                           @ '' in '' @ Table_ci localCol))
            else
              (let foreignCol = ForeignColumns constr ! 0 in
               constraintsLoop tableName constraints pkCols
                 (fkCols @ [\<lparr>Column_fk = Column_ci localCol,
                             Name_fk = ConstraintName constr,
                             RefTable = Table_ci foreignCol,
                             RefColumn = Column_ci foreignCol\<rparr>]))))
      else Inl (Errorf (''Unknown Constraint: '' @ ConstraintType constr)))"

text \<open>
  The loop over the fetched columns: a column whose name is a key of \<open>pkCols\<close> goes to
  \<open>keyColumns\<close>, any other to \<open>restColumns\<close>. The Go map \<open>pkCols\<close> is only looked up,
  never iterated, so its iteration order plays no part.
\<close>

fun columnsLoop :: "(string \<rightharpoonup> ConstraintDefinition) \<Rightarrow> ColumnDefinition list \<Rightarrow>
    ColumnDefinition list \<Rightarrow> ColumnDefinition list \<Rightarrow> ColumnDefinition list \<times> ColumnDefinition list" where
  "columnsLoop pkCols [] keyColumns restColumns = (keyColumns, restColumns)"
| "columnsLoop pkCols (col # cols) keyColumns restColumns =
     (case pkCols (Name_c col) of
        Some _ \<Rightarrow> columnsLoop pkCols cols (keyColumns @ [col]) restColumns
      | None \<Rightarrow> columnsLoop pkCols cols keyColumns (restColumns @ [col]))"

text \<open>
  The body of the loop over the tables, for the table \<open>table\<close> (a copy of \<open>tables[idx]\<close>):
  fetch the columns, fetch the constraints, classify, partition, and give the table
  with its three fields assigned.
\<close>

definition assembleTable :: "Catalog \<Rightarrow> string \<Rightarrow> Table \<Rightarrow> error + Table" where
  "assembleTable db schema table =
     (case getColumns db schema (Name_t table) of
        Inl err \<Rightarrow> Inl err
      | Inr cols \<Rightarrow>
         (case getConstraints db schema (Name_t table) of
            Inl err \<Rightarrow> Inl err
          | Inr constraints \<Rightarrow>
             (case constraintsLoop (Name_t table) constraints Map.empty [] of
                Inl err \<Rightarrow> Inl err
              | Inr (pkCols, fkCols) \<Rightarrow>
                 (case columnsLoop pkCols cols [] [] of
                    (keyColumns, restColumns) \<Rightarrow>
                      Inr (table\<lparr>KeyColumns := keyColumns, Columns := restColumns,
                                  ForeignKeys := fkCols\<rparr>)))))"

text \<open>\<open>for idx, table := range tables\<close>, assigning to \<open>tables[idx]\<close> in place.\<close>

function tablesLoop :: "Catalog \<Rightarrow> string \<Rightarrow> Table list \<Rightarrow> nat \<Rightarrow> error + Table list" where
  "tablesLoop db schema tables idx =
     (if idx < length tables then
        (case assembleTable db schema (tables ! idx) of
           Inl err \<Rightarrow> Inl err
         | Inr table' \<Rightarrow> tablesLoop db schema (tables[idx := table']) (Suc idx))
      else Inr tables)"
  by pat_completeness auto
termination
  by (relation "measure (\<lambda>(db, schema, tables, idx). length tables - idx)") auto

declare tablesLoop.simps [simp del]

definition getFullSchema :: "Catalog \<Rightarrow> string \<Rightarrow> Config \<Rightarrow> error + Schema" where
  "getFullSchema db schema config =
     (case getTableNames db schema (Exclude config) of
        Inl err \<Rightarrow> Inl err
      | Inr tables \<Rightarrow>
         (case tablesLoop db schema tables 0 of
            Inl err \<Rightarrow> Inl err
          | Inr tables' \<Rightarrow>
             (case getEnums db schema of
                Inl err \<Rightarrow> Inl err
              | Inr enums \<Rightarrow> Inr \<lparr>Tables = tables', Enums = enums\<rparr>)))"

section \<open>Notions used in the statements\<close>

text \<open>
  The key set of a table: the column names of the local columns of its PRIMARY KEY
  constraints (what \<open>pkCols\<close> has as keys once the constraints are scanned).
\<close>

definition keySet :: "ConstraintDefinition list \<Rightarrow> string set" where
  "keySet constraints =
     set (concat (map (\<lambda>c. map Column_ci (LocalColumns c))
                      (filter (\<lambda>c. ConstraintType c = ''PRIMARY KEY'') constraints)))"

text \<open>The ForeignKeyDefinition built from the first local and the first foreign column.\<close>

definition foreignKeyOf :: "ConstraintDefinition \<Rightarrow> ForeignKeyDefinition" where
  "foreignKeyOf c = \<lparr>Column_fk = Column_ci (LocalColumns c ! 0), Name_fk = ConstraintName c,
     RefTable = Table_ci (ForeignColumns c ! 0), RefColumn = Column_ci (ForeignColumns c ! 0)\<rparr>"

text \<open>
  A constraint passes the scan of the table \<open>tn\<close>: it is a PRIMARY KEY whose local columns
  all belong to \<open>tn\<close>, or a FOREIGN KEY with one local column, of \<open>tn\<close>, and one foreign column.
\<close>

definition passes :: "string \<Rightarrow> ConstraintDefinition \<Rightarrow> bool" where
  "passes tn c =
     ((ConstraintType c = ''PRIMARY KEY'' \<and> list_all (\<lambda>col. Table_ci col = tn) (LocalColumns c)) \<or>
      (ConstraintType c = ''FOREIGN KEY'' \<and> length (LocalColumns c) = 1 \<and>
       length (ForeignColumns c) = 1 \<and> Table_ci (LocalColumns c ! 0) = tn))"

text \<open>The text \<open>CONCAT\<close> gives for a \<open>cardinal_number\<close>: nothing for NULL, else its digits.\<close>

definition cardinalText :: "nat option \<Rightarrow> string" where
  "cardinalText n = (case n of None \<Rightarrow> [] | Some k \<Rightarrow> showNat k)"

section \<open>Example databases\<close>

text \<open>A database whose queries never fail, from its tables, columns, constraints and enums.\<close>

definition catalogOf :: "(string \<times> string) list \<Rightarrow> (string \<times> ColumnRow list) list \<Rightarrow>
    (string \<times> ConstraintDefinition list) list \<Rightarrow> EnumRow list \<Rightarrow> Catalog" where
  "catalogOf tabs cols cons enums =
     \<lparr>tableRows = (\<lambda>schema. Inr (map Inr tabs)),
      columnRows = (\<lambda>schema tableName.
         Inr (map Inr (case map_of cols tableName of None \<Rightarrow> [] | Some rs \<Rightarrow> rs))),
      constraintRows = (\<lambda>schema tableName.
         Inr (map Inr (case map_of cons tableName of None \<Rightarrow> [] | Some cs \<Rightarrow> cs))),
      enumRows = (\<lambda>schema. Inr (map Inr enums))\<rparr>"

definition columnRow :: "string \<Rightarrow> string \<Rightarrow> string \<Rightarrow> ColumnRow" where
  "columnRow name ty udt = \<lparr>column_name = name, is_nullable = ''NO'', data_type = ty,
     udt_name = udt, numeric_precision = None, numeric_scale = None,
     character_maximum_length = None, description = None\<rparr>"

definition ident :: "string \<Rightarrow> string \<Rightarrow> ColumnIdentity" where
  "ident t c = \<lparr>Table_ci = t, Column_ci = c\<rparr>"

definition noExclusions :: Config where
  "noExclusions = \<lparr>Exclude = [], PostgresURL = []\<rparr>"

definition excludeCustomers :: Config where
  "excludeCustomers = \<lparr>Exclude = [''customers''], PostgresURL = []\<rparr>"

text \<open>One table \<open>users\<close> with key \<open>id\<close>, and one enum \<open>role\<close>.\<close>

definition usersDb :: Catalog where
  "usersDb = catalogOf [(''users'', '''')]
     [(''users'', [columnRow ''id'' ''integer'' ''int4'', columnRow ''email'' ''text'' ''text'',
                   columnRow ''role'' ''USER-DEFINED'' ''role''])]
     [(''users'', [\<lparr>LocalColumns = [ident ''users'' ''id''], ForeignColumns = [],
                    ConstraintName = ''users_pkey'', ConstraintType = ''PRIMARY KEY''\<rparr>])]
     [\<lparr>typname = ''role'', enumlabels = [''admin'', ''member''], enum_description = None\<rparr>]"

definition usersTable :: Table where
  "usersTable = \<lparr>Name_t = ''users'', Description_t = '''',
     KeyColumns = [\<lparr>Name_c = ''id'', DataType = ''integer'', CustomType = False,
                    Description_c = '''', IsNullable = False\<rparr>],
     Columns = [\<lparr>Name_c = ''email'', DataType = ''text'', CustomType = False,
                 Description_c = '''', IsNullable = False\<rparr>,
                \<lparr>Name_c = ''role'', DataType = ''role'', CustomType = True,
                 Description_c = '''', IsNullable = False\<rparr>],
     ForeignKeys = []\<rparr>"

definition usersSchema :: Schema where
  "usersSchema = \<lparr>Tables = [usersTable],
     Enums = [\<lparr>Name_e = ''role'', Description_e = '''', Values = [''admin'', ''member'']\<rparr>]\<rparr>"

text \<open>The same database, except that it knows no schema but \<open>public\<close>.\<close>

definition usersDbPublicOnly :: Catalog where
  "usersDbPublicOnly = usersDb\<lparr>tableRows :=
     (\<lambda>schema. if schema = ''public'' then tableRows usersDb schema
                else Inl (DriverError ''no such schema''))\<rparr>"

text \<open>Four tables with similar names.\<close>

definition logsDb :: Catalog where
  "logsDb = catalogOf [(''logs'', ''raw''), (''logs_archive'', ''''), (''Logs'', ''''), (''blog'', '''')]
     [] [] []"

text \<open>Two tables, \<open>customers\<close> and \<open>orders\<close>; the constraints of \<open>orders\<close> are a parameter.\<close>

definition customersTable :: Table where
  "customersTable = scanTable (''customers'', '''')"

definition ordersTable :: Table where
  "ordersTable = scanTable (''orders'', '''')"

definition ordersColumns :: "ColumnRow list" where
  "ordersColumns = [columnRow ''id'' ''integer'' ''int4'',
     columnRow ''customer_id'' ''integer'' ''int4'', columnRow ''region'' ''text'' ''text'']"

definition shopDb :: "ConstraintDefinition list \<Rightarrow> Catalog" where
  "shopDb cs = catalogOf [(''customers'', ''''), (''orders'', '''')]
     [(''customers'', [columnRow ''id'' ''integer'' ''int4'', columnRow ''region'' ''text'' ''text'']),
      (''orders'', ordersColumns)]
     [(''customers'', [\<lparr>LocalColumns = [ident ''customers'' ''id''], ForeignColumns = [],
                        ConstraintName = ''customers_pkey'', ConstraintType = ''PRIMARY KEY''\<rparr>]),
      (''orders'', cs)]
     []"

definition ordersPkey :: ConstraintDefinition where
  "ordersPkey = \<lparr>LocalColumns = [ident ''orders'' ''id''], ForeignColumns = [],
     ConstraintName = ''orders_pkey'', ConstraintType = ''PRIMARY KEY''\<rparr>"

definition customerFkey :: ConstraintDefinition where
  "customerFkey = \<lparr>LocalColumns = [ident ''orders'' ''customer_id''],
     ForeignColumns = [ident ''customers'' ''id''],
     ConstraintName = ''orders_customer_id_fkey'', ConstraintType = ''FOREIGN KEY''\<rparr>"

definition compositeFkey :: ConstraintDefinition where
  "compositeFkey = \<lparr>LocalColumns = [ident ''orders'' ''customer_id'', ident ''orders'' ''region''],
     ForeignColumns = [ident ''customers'' ''id'', ident ''customers'' ''region''],
     ConstraintName = ''orders_customer_region_fkey'', ConstraintType = ''FOREIGN KEY''\<rparr>"

definition strayPkey :: ConstraintDefinition where
  "strayPkey = \<lparr>LocalColumns = [ident ''orders'' ''id'', ident ''customers'' ''id''],
     ForeignColumns = [], ConstraintName = ''orders_pkey'', ConstraintType = ''PRIMARY KEY''\<rparr>"

definition strayFkey :: ConstraintDefinition where
  "strayFkey = \<lparr>LocalColumns = [ident ''customers'' ''id''],
     ForeignColumns = [ident ''customers'' ''id''],
     ConstraintName = ''orders_stray_fkey'', ConstraintType = ''FOREIGN KEY''\<rparr>"

definition danglingFkey :: ConstraintDefinition where
  "danglingFkey = \<lparr>LocalColumns = [ident ''customers'' ''id''], ForeignColumns = [],
     ConstraintName = ''orders_dangling_fkey'', ConstraintType = ''FOREIGN KEY''\<rparr>"

definition uniqueRegion :: ConstraintDefinition where
  "uniqueRegion = \<lparr>LocalColumns = [ident ''orders'' ''region''], ForeignColumns = [],
     ConstraintName = ''orders_region_key'', ConstraintType = ''UNIQUE''\<rparr>"

definition customerFk :: ForeignKeyDefinition where
  "customerFk = \<lparr>Column_fk = ''customer_id'', Name_fk = ''orders_customer_id_fkey'',
     RefTable = ''customers'', RefColumn = ''id''\<rparr>"

text \<open>The schema with the table \<open>orders\<close> alone, its foreign key referring to \<open>customers\<close>.\<close>

definition ordersOnlySchema :: Schema where
  "ordersOnlySchema =
     \<lparr>Tables = [\<lparr>Name_t = ''orders'', Description_t = '''',
         KeyColumns = [\<lparr>Name_c = ''id'', DataType = ''integer'', CustomType = False,
                        Description_c = '''', IsNullable = False\<rparr>],
         Columns = [\<lparr>Name_c = ''customer_id'', DataType = ''integer'', CustomType = False,
                     Description_c = '''', IsNullable = False\<rparr>,
                    \<lparr>Name_c = ''region'', DataType = ''text'', CustomType = False,
                     Description_c = '''', IsNullable = False\<rparr>],
         ForeignKeys = [customerFk]\<rparr>],
      Enums = []\<rparr>"

text \<open>An enum type one of whose labels contains the separator.\<close>

definition reviewStatus :: EnumRow where
  "reviewStatus = \<lparr>typname = ''status'', enumlabels = [''active'', ''in|review'', ''done''],
     enum_description = None\<rparr>"

text \<open>Columns of the types the formatting rule names.\<close>

definition priceColumn :: ColumnRow where
  "priceColumn = (columnRow ''price'' ''numeric'' ''numeric'')
     \<lparr>numeric_precision := Some 10, numeric_scale := Some 2\<rparr>"

definition codeColumn :: ColumnRow where
  "codeColumn = (columnRow ''code'' ''character'' ''bpchar'')\<lparr>character_maximum_length := Some 20\<rparr>"

definition createdColumn :: ColumnRow where
  "createdColumn = columnRow ''created'' ''timestamp with time zone'' ''timestamptz''"

definition roleColumn :: ColumnRow where
  "roleColumn = columnRow ''role'' ''USER-DEFINED'' ''role''"

definition idColumn :: ColumnRow where
  "idColumn = columnRow ''id'' ''integer'' ''int4''"

definition productsDb :: Catalog where
  "productsDb = catalogOf [(''products'', '''')]
     [(''products'', [idColumn, priceColumn, codeColumn, createdColumn, roleColumn])] [] []"

lemmas example_defs =
  catalogOf_def columnRow_def ident_def noExclusions_def excludeCustomers_def usersDb_def
  usersTable_def usersSchema_def usersDbPublicOnly_def logsDb_def customersTable_def
  ordersTable_def ordersColumns_def shopDb_def ordersPkey_def customerFkey_def
  compositeFkey_def strayPkey_def strayFkey_def danglingFkey_def uniqueRegion_def
  customerFk_def
  reviewStatus_def priceColumn_def codeColumn_def createdColumn_def roleColumn_def
  idColumn_def productsDb_def

lemmas run_defs =
  getFullSchema_def getTableNames_def scanTable_def tablesLoop.simps assembleTable_def
  getColumns_def getConstraints_def scanColumn_def dataTypeCase_def getEnums_def
  scanEnum_def Split_def

section \<open>Lemmas on the loops\<close>

lemma isExcluded_iff: "isExcluded exclude name \<longleftrightarrow> name \<in> set exclude"
  by (induction exclude) auto

lemma tableRowsLoop_ok:
  "tableRowsLoop exclude (map Inr rows) tables =
     Inr (tables @ filter (\<lambda>t. Name_t t \<notin> set exclude) (map scanTable rows))"
  by (induction rows arbitrary: tables) (auto simp: isExcluded_iff Let_def)

lemma tableRowsLoop_Inr:
  "tableRowsLoop exclude rs tables = Inr ts \<Longrightarrow> \<exists>rows. rs = map Inr rows"
proof (induction rs arbitrary: tables)
  case Nil
  then show ?case by simp
next
  case (Cons r rs)
  show ?case
  proof (cases r)
    case (Inl e)
    with Cons.prems show ?thesis by simp
  next
    case (Inr row)
    with Cons.prems obtain tables' where "tableRowsLoop exclude rs tables' = Inr ts"
      by (auto simp: Let_def split: if_splits)
    from Cons.IH [OF this] obtain rows where "rs = map Inr rows" ..
    with Inr have "r # rs = map Inr (row # rows)" by simp
    then show ?thesis ..
  qed
qed

lemma columnRowsLoop_ok:
  "columnRowsLoop (map Inr rows) cols = Inr (cols @ map scanColumn rows)"
  by (induction rows arbitrary: cols) auto

lemma constraintRowsLoop_ok:
  "constraintRowsLoop (map Inr rows) cols = Inr (cols @ rows)"
  by (induction rows arbitrary: cols) auto

lemma enumRowsLoop_ok:
  "enumRowsLoop (map Inr rows) enums = Inr (enums @ map scanEnum rows)"
  by (induction rows arbitrary: enums) auto

lemma enumRowsLoop_Inr:
  "enumRowsLoop rs enums = Inr es \<Longrightarrow> \<exists>rows. rs = map Inr rows"
proof (induction rs arbitrary: enums)
  case Nil
  then show ?case by simp
next
  case (Cons r rs)
  show ?case
  proof (cases r)
    case (Inl e)
    with Cons.prems show ?thesis by simp
  next
    case (Inr row)
    with Cons.prems have "enumRowsLoop rs (enums @ [scanEnum row]) = Inr es" by simp
    from Cons.IH [OF this] obtain rows where "rs = map Inr rows" ..
    with Inr have "r # rs = map Inr (row # rows)" by simp
    then show ?thesis ..
  qed
qed

lemma primaryKeyLoop_Inr:
  "primaryKeyLoop tn c cols pk = Inr pk' \<Longrightarrow>
     dom pk' = dom pk \<union> Column_ci ` set cols \<and> (\<forall>col \<in> set cols. Table_ci col = tn)"
  by (induction cols arbitrary: pk) (auto split: if_splits)

lemma primaryKeyLoop_fail:
  "\<forall>col \<in> set ok. Table_ci col = tn \<Longrightarrow> Table_ci bad \<noteq> tn \<Longrightarrow>
   primaryKeyLoop tn c (ok @ bad # rest) pk =
     Inl (Errorf (''Table '' @ tn @ '' had primary key '' @ ConstraintName c @ '' in '' @ Table_ci bad))"
  by (induction ok arbitrary: pk) auto

lemma primaryKeyLoop_ok:
  "\<forall>col \<in> set cols. Table_ci col = tn \<Longrightarrow> \<exists>pk'. primaryKeyLoop tn c cols pk = Inr pk'"
  by (induction cols arbitrary: pk) auto

lemma columnsLoop_eq:
  "columnsLoop pk cols key rest =
     (key @ filter (\<lambda>c. Name_c c \<in> dom pk) cols, rest @ filter (\<lambda>c. Name_c c \<notin> dom pk) cols)"
  by (induction cols arbitrary: key rest) (auto split: option.splits)

lemma constraintsLoop_append:
  "constraintsLoop tn (pre @ post) pk fk =
     (case constraintsLoop tn pre pk fk of
        Inl e \<Rightarrow> Inl e
      | Inr (pk', fk') \<Rightarrow> constraintsLoop tn post pk' fk')"
  by (induction pre arbitrary: pk fk) (auto simp: Let_def split: sum.splits)

lemma constraintsLoop_Inr:
  "constraintsLoop tn cs pk fk = Inr (pk', fk') \<Longrightarrow>
     dom pk' = dom pk \<union> keySet cs \<and>
     fk' = fk @ map foreignKeyOf (filter (\<lambda>c. ConstraintType c = ''FOREIGN KEY'') cs) \<and>
     list_all (passes tn) cs"
proof (induction cs arbitrary: pk fk)
  case Nil
  then show ?case by (simp add: keySet_def)
next
  case (Cons c cs)
  show ?case
  proof (cases "ConstraintType c = ''PRIMARY KEY''")
    case True
    with Cons.prems obtain pk1 where
      p1: "primaryKeyLoop tn c (LocalColumns c) pk = Inr pk1" and
      p2: "constraintsLoop tn cs pk1 fk = Inr (pk', fk')"
      by (auto split: sum.splits)
    from primaryKeyLoop_Inr [OF p1] Cons.IH [OF p2] True show ?thesis
      by (auto simp: keySet_def passes_def list_all_iff)
  next
    case False
    with Cons.prems have fk: "ConstraintType c = ''FOREIGN KEY''"
      by (auto split: if_splits)
    with False Cons.prems have
      v: "length (LocalColumns c) = 1" "length (ForeignColumns c) = 1"
         "Table_ci (LocalColumns c ! 0) = tn" and
      p2: "constraintsLoop tn cs pk (fk @ [foreignKeyOf c]) = Inr (pk', fk')"
      by (auto simp: Let_def foreignKeyOf_def split: if_splits)
    from Cons.IH [OF p2] v fk False show ?thesis
      by (auto simp: keySet_def passes_def)
  qed
qed

lemma assembleTable_Name:
  "assembleTable db schema t = Inr t' \<Longrightarrow> Name_t t' = Name_t t \<and> Description_t t' = Description_t t"
  by (auto simp: assembleTable_def split: sum.splits prod.splits)

lemma tablesLoop_Inr:
  "tablesLoop db schema tables idx = Inr ts' \<Longrightarrow>
     length ts' = length tables \<and>
     (\<forall>j < idx. j < length tables \<longrightarrow> ts' ! j = tables ! j) \<and>
     (\<forall>j. idx \<le> j \<and> j < length tables \<longrightarrow> assembleTable db schema (tables ! j) = Inr (ts' ! j))"
proof (induction db schema tables idx rule: tablesLoop.induct)
  case (1 db schema tables idx)
  show ?case
  proof (cases "idx < length tables")
    case False
    with "1.prems" show ?thesis by (auto simp: tablesLoop.simps [of db schema tables idx])
  next
    case True
    with "1.prems" obtain t' where
      a: "assembleTable db schema (tables ! idx) = Inr t'" and
      r: "tablesLoop db schema (tables[idx := t']) (Suc idx) = Inr ts'"
      by (auto simp: tablesLoop.simps [of db schema tables idx] split: sum.splits)
    from "1.IH" [OF True a r] have
      len: "length ts' = length tables" and
      low: "\<forall>j < Suc idx. j < length tables \<longrightarrow> ts' ! j = (tables[idx := t']) ! j" and
      up: "\<forall>j. Suc idx \<le> j \<and> j < length tables \<longrightarrow>
             assembleTable db schema ((tables[idx := t']) ! j) = Inr (ts' ! j)"
      by simp_all
    have "\<forall>j < idx. j < length tables \<longrightarrow> ts' ! j = tables ! j"
      using low by (auto simp: nth_list_update)
    moreover have "\<forall>j. idx \<le> j \<and> j < length tables \<longrightarrow>
        assembleTable db schema (tables ! j) = Inr (ts' ! j)"
    proof (intro allI impI)
      fix j assume j: "idx \<le> j \<and> j < length tables"
      show "assembleTable db schema (tables ! j) = Inr (ts' ! j)"
      proof (cases "j = idx")
        case True
        with low j a show ?thesis by simp
      next
        case False
        with j up show ?thesis by (auto simp: nth_list_update)
      qed
    qed
    ultimately show ?thesis using len by simp
  qed
qed

lemma tablesLoop_fail:
  "idx \<le> i \<Longrightarrow> i < length tables \<Longrightarrow>
   \<forall>j. idx \<le> j \<and> j < i \<longrightarrow> (\<exists>t'. assembleTable db schema (tables ! j) = Inr t') \<Longrightarrow>
   assembleTable db schema (tables ! i) = Inl e \<Longrightarrow>
   tablesLoop db schema tables idx = Inl e"
proof (induction db schema tables idx rule: tablesLoop.induct)
  case (1 db schema tables idx)
  show ?case
  proof (cases "idx = i")
    case True
    with "1.prems"(2,4) show ?thesis by (simp add: tablesLoop.simps [of db schema tables i])
  next
    case False
    with "1.prems" have lt: "idx < i" and il: "idx < length tables" by simp_all
    from "1.prems"(3) lt obtain t' where a: "assembleTable db schema (tables ! idx) = Inr t'"
      by auto
    have "tablesLoop db schema (tables[idx := t']) (Suc idx) = Inl e"
    proof (rule "1.IH" [OF il a])
      show "Suc idx \<le> i" using lt by simp
      show "i < length (tables[idx := t'])" using "1.prems" by simp
      show "\<forall>j. Suc idx \<le> j \<and> j < i \<longrightarrow>
              (\<exists>t'a. assembleTable db schema (tables[idx := t'] ! j) = Inr t'a)"
        using "1.prems"(3) by (auto simp: nth_list_update)
      show "assembleTable db schema (tables[idx := t'] ! i) = Inl e"
        using "1.prems"(4) lt by (simp add: nth_list_update)
    qed
    with il a show ?thesis by (simp add: tablesLoop.simps [of db schema tables idx])
  qed
qed

lemma tablesLoop_ok:
  "\<forall>j. idx \<le> j \<and> j < length tables \<longrightarrow> (\<exists>t'. assembleTable db schema (tables ! j) = Inr t') \<Longrightarrow>
   \<exists>ts'. tablesLoop db schema tables idx = Inr ts'"
proof (induction db schema tables idx rule: tablesLoop.induct)
  case (1 db schema tables idx)
  show ?case
  proof (cases "idx < length tables")
    case False
    then show ?thesis by (simp add: tablesLoop.simps [of db schema tables idx])
  next
    case True
    with "1.prems" obtain t' where a: "assembleTable db schema (tables ! idx) = Inr t'"
      by auto
    have "\<exists>ts'. tablesLoop db schema (tables[idx := t']) (Suc idx) = Inr ts'"
    proof (rule "1.IH" [OF True a])
      show "\<forall>j. Suc idx \<le> j \<and> j < length (tables[idx := t']) \<longrightarrow>
              (\<exists>t'a. assembleTable db schema (tables[idx := t'] ! j) = Inr t'a)"
        using "1.prems" by (auto simp: nth_list_update)
    qed
    with True a show ?thesis by (simp add: tablesLoop.simps [of db schema tables idx])
  qed
qed

text \<open>A successful run, taken apart.\<close>

lemma getFullSchema_Inr:
  assumes "getFullSchema db schema config = Inr s"
  shows "\<exists>tables. getTableNames db schema (Exclude config) = Inr tables \<and>
           length (Tables s) = length tables \<and>
           (\<forall>j < length tables. assembleTable db schema (tables ! j) = Inr (Tables s ! j)) \<and>
           getEnums db schema = Inr (Enums s)"
proof -
  from assms obtain tables ts' enums where
    g: "getTableNames db schema (Exclude config) = Inr tables" and
    l: "tablesLoop db schema tables 0 = Inr ts'" and
    e: "getEnums db schema = Inr enums" and
    s: "s = \<lparr>Tables = ts', Enums = enums\<rparr>"
    by (auto simp: getFullSchema_def split: sum.splits)
  from tablesLoop_Inr [OF l] s have
    "length (Tables s) = length tables"
    "\<forall>j < length tables. assembleTable db schema (tables ! j) = Inr (Tables s ! j)"
    by simp_all
  with g e s show ?thesis by simp
qed

lemma getFullSchema_fail:
  assumes "getTableNames db schema (Exclude config) = Inr tables"
      and "i < length tables"
      and "\<forall>j < i. \<exists>t'. assembleTable db schema (tables ! j) = Inr t'"
      and "assembleTable db schema (tables ! i) = Inl e"
  shows "getFullSchema db schema config = Inl e"
proof -
  have "tablesLoop db schema tables 0 = Inl e"
    by (rule tablesLoop_fail [of 0 i]) (use assms in auto)
  with assms(1) show ?thesis by (simp add: getFullSchema_def)
qed

text \<open>The successful assembly of one table, taken apart.\<close>

lemma assembleTable_Inr:
  assumes "assembleTable db schema t = Inr t'"
  obtains cols cs where
    "getColumns db schema (Name_t t) = Inr cols"
    "getConstraints db schema (Name_t t) = Inr cs"
    "list_all (passes (Name_t t)) cs"
    "t' = t\<lparr>KeyColumns := filter (\<lambda>c. Name_c c \<in> keySet cs) cols,
            Columns := filter (\<lambda>c. Name_c c \<notin> keySet cs) cols,
            ForeignKeys := map foreignKeyOf (filter (\<lambda>c. ConstraintType c = ''FOREIGN KEY'') cs)\<rparr>"
proof -
  from assms obtain cols cs pk fk where
    c: "getColumns db schema (Name_t t) = Inr cols" and
    k: "getConstraints db schema (Name_t t) = Inr cs" and
    l: "constraintsLoop (Name_t t) cs Map.empty [] = Inr (pk, fk)" and
    t: "t' = t\<lparr>KeyColumns := fst (columnsLoop pk cols [] []),
               Columns := snd (columnsLoop pk cols [] []), ForeignKeys := fk\<rparr>"
    by (auto simp: assembleTable_def split: sum.splits prod.splits)
  from constraintsLoop_Inr [OF l] have
    "dom pk = keySet cs"
    "fk = map foreignKeyOf (filter (\<lambda>c. ConstraintType c = ''FOREIGN KEY'') cs)"
    "list_all (passes (Name_t t)) cs"
    by simp_all
  with c k t that show ?thesis by (simp add: columnsLoop_eq)
qed

lemma columnRowsLoop_Inr:
  "columnRowsLoop rs cols = Inr cs \<Longrightarrow> \<exists>rows. rs = map Inr rows"
proof (induction rs arbitrary: cols)
  case Nil
  then show ?case by simp
next
  case (Cons r rs)
  show ?case
  proof (cases r)
    case (Inl e)
    with Cons.prems show ?thesis by simp
  next
    case (Inr row)
    with Cons.prems have "columnRowsLoop rs (cols @ [scanColumn row]) = Inr cs" by simp
    from Cons.IH [OF this] obtain rows where "rs = map Inr rows" ..
    with Inr have "r # rs = map Inr (row # rows)" by simp
    then show ?thesis ..
  qed
qed

lemma constraintRowsLoop_Inr:
  "constraintRowsLoop rs cols = Inr cs \<Longrightarrow> \<exists>rows. rs = map Inr rows"
proof (induction rs arbitrary: cols)
  case Nil
  then show ?case by simp
next
  case (Cons r rs)
  show ?case
  proof (cases r)
    case (Inl e)
    with Cons.prems show ?thesis by simp
  next
    case (Inr row)
    with Cons.prems have "constraintRowsLoop rs (cols @ [row]) = Inr cs" by simp
    from Cons.IH [OF this] obtain rows where "rs = map Inr rows" ..
    with Inr have "r # rs = map Inr (row # rows)" by simp
    then show ?thesis ..
  qed
qed

lemma getTableNames_Inr:
  assumes "getTableNames db schema exclude = Inr tables"
  obtains rows where "tableRows db schema = Inr (map Inr rows)"
    "tables = filter (\<lambda>t. Name_t t \<notin> set exclude) (map scanTable rows)"
proof -
  from assms obtain rs where r: "tableRows db schema = Inr rs"
    and l: "tableRowsLoop exclude rs [] = Inr tables"
    by (auto simp: getTableNames_def split: sum.splits)
  from tableRowsLoop_Inr [OF l] obtain rows where rows: "rs = map Inr rows" ..
  with l have "tables = filter (\<lambda>t. Name_t t \<notin> set exclude) (map scanTable rows)"
    by (simp add: tableRowsLoop_ok)
  with r rows that show ?thesis by simp
qed

lemma getColumns_Inr:
  assumes "getColumns db schema tn = Inr cols"
  obtains rows where "columnRows db schema tn = Inr (map Inr rows)" "cols = map scanColumn rows"
proof -
  from assms obtain rs where r: "columnRows db schema tn = Inr rs"
    and l: "columnRowsLoop rs [] = Inr cols"
    by (auto simp: getColumns_def split: sum.splits)
  from columnRowsLoop_Inr [OF l] obtain rows where rows: "rs = map Inr rows" ..
  with l have "cols = map scanColumn rows" by (simp add: columnRowsLoop_ok)
  with r rows that show ?thesis by simp
qed

lemma getConstraints_Inr:
  assumes "getConstraints db schema tn = Inr cs"
  shows "constraintRows db schema tn = Inr (map Inr cs)"
proof -
  from assms obtain rs where r: "constraintRows db schema tn = Inr rs"
    and l: "constraintRowsLoop rs [] = Inr cs"
    by (auto simp: getConstraints_def split: sum.splits)
  from constraintRowsLoop_Inr [OF l] obtain rows where rows: "rs = map Inr rows" ..
  with l have "cs = rows" by (simp add: constraintRowsLoop_ok)
  with r rows show ?thesis by simp
qed

lemma getEnums_Inr:
  assumes "getEnums db schema = Inr enums"
  obtains rows where "enumRows db schema = Inr (map Inr rows)" "enums = map scanEnum rows"
proof -
  from assms obtain rs where r: "enumRows db schema = Inr rs"
    and l: "enumRowsLoop rs [] = Inr enums"
    by (auto simp: getEnums_def split: sum.splits)
  from enumRowsLoop_Inr [OF l] obtain rows where rows: "rs = map Inr rows" ..
  with l have "enums = map scanEnum rows" by (simp add: enumRowsLoop_ok)
  with r rows that show ?thesis by simp
qed

text \<open>Every table of a returned schema is the assembly of a listed table.\<close>

lemma schema_table:
  assumes "getFullSchema db schema config = Inr s" and "t \<in> set (Tables s)"
  obtains t0 where "assembleTable db schema t0 = Inr t" "Name_t t0 = Name_t t"
proof -
  from getFullSchema_Inr [OF assms(1)] obtain tables where
    len: "length (Tables s) = length tables" and
    asm: "\<forall>j < length tables. assembleTable db schema (tables ! j) = Inr (Tables s ! j)"
    by blast
  from assms(2) obtain j where j: "j < length (Tables s)" "Tables s ! j = t"
    by (auto simp: in_set_conv_nth)
  with len asm have a: "assembleTable db schema (tables ! j) = Inr t" by auto
  from assembleTable_Name [OF a] have "Name_t (tables ! j) = Name_t t" by simp
  with a that show ?thesis by blast
qed

lemma constraintsLoop_ok:
  "list_all (passes tn) cs \<Longrightarrow>
   \<exists>pk'. constraintsLoop tn cs pk fk =
     Inr (pk', fk @ map foreignKeyOf (filter (\<lambda>c. ConstraintType c = ''FOREIGN KEY'') cs))"
proof (induction cs arbitrary: pk fk)
  case Nil
  then show ?case by simp
next
  case (Cons c cs)
  from Cons.prems have pc: "passes tn c" and rest: "list_all (passes tn) cs" by simp_all
  show ?case
  proof (cases "ConstraintType c = ''PRIMARY KEY''")
    case True
    with pc have "\<forall>col \<in> set (LocalColumns c). Table_ci col = tn"
      by (auto simp: passes_def list_all_iff)
    from primaryKeyLoop_ok [OF this] obtain pk1 where
      p1: "primaryKeyLoop tn c (LocalColumns c) pk = Inr pk1" by blast
    from Cons.IH [OF rest, of pk1 fk] True p1 show ?thesis by simp
  next
    case False
    with pc have v: "ConstraintType c = ''FOREIGN KEY''" "length (LocalColumns c) = 1"
      "length (ForeignColumns c) = 1" "Table_ci (LocalColumns c ! 0) = tn"
      by (auto simp: passes_def)
    from Cons.IH [OF rest, of pk "fk @ [foreignKeyOf c]"] v show ?thesis
      by (simp add: foreignKeyOf_def Let_def)
  qed
qed

text \<open>The run ends with the error of the first table that fails.\<close>

lemma run_fails_at:
  assumes "getTableNames db schema (Exclude config) = Inr (before @ t # after)"
      and "\<forall>t0 \<in> set before. \<exists>t'. assembleTable db schema t0 = Inr t'"
      and "assembleTable db schema t = Inl e"
  shows "getFullSchema db schema config = Inl e"
proof (rule getFullSchema_fail [OF assms(1), of "length before"])
  show "length before < length (before @ t # after)" by simp
  show "\<forall>j < length before. \<exists>t'. assembleTable db schema ((before @ t # after) ! j) = Inr t'"
    using assms(2) by (simp add: nth_append)
  show "assembleTable db schema ((before @ t # after) ! length before) = Inl e"
    using assms(3) by simp
qed

text \<open>The assembly of a table ends with the error of the first constraint that fails.\<close>

lemma table_fails_at:
  assumes "getColumns db schema (Name_t t) = Inr cols"
      and "getConstraints db schema (Name_t t) = Inr (pre @ c # post)"
      and "constraintsLoop (Name_t t) pre Map.empty [] = Inr (pk, fk)"
      and "constraintsLoop (Name_t t) (c # post) pk fk = Inl e"
  shows "assembleTable db schema t = Inl e"
  using assms by (simp add: assembleTable_def constraintsLoop_append)

lemma constraint_fails_run:
  assumes "getTableNames db schema (Exclude config) = Inr (before @ t # after)"
      and "\<forall>t0 \<in> set before. \<exists>t'. assembleTable db schema t0 = Inr t'"
      and "getColumns db schema (Name_t t) = Inr cols"
      and "getConstraints db schema (Name_t t) = Inr (pre @ c # post)"
      and "constraintsLoop (Name_t t) pre Map.empty [] = Inr (pk, fk)"
      and "constraintsLoop (Name_t t) (c # post) pk fk = Inl e"
  shows "getFullSchema db schema config = Inl e"
  by (rule run_fails_at [OF assms(1,2) table_fails_at [OF assms(3-6)]])

text \<open>No schema is returned when a constraint of a listed table does not pass.\<close>

lemma run_fails_if_not_passes:
  assumes "getTableNames db schema (Exclude config) = Inr tables"
      and "t \<in> set tables"
      and "getConstraints db schema (Name_t t) = Inr cs"
      and "c \<in> set cs"
      and "\<not> passes (Name_t t) c"
  shows "\<exists>e. getFullSchema db schema config = Inl e"
proof (cases "getFullSchema db schema config")
  case (Inl e)
  then show ?thesis by simp
next
  case (Inr s)
  from getFullSchema_Inr [OF Inr] assms(1) have
    asm: "\<forall>j < length tables. assembleTable db schema (tables ! j) = Inr (Tables s ! j)"
    by auto
  from assms(2) obtain j where j: "j < length tables" "tables ! j = t"
    by (auto simp: in_set_conv_nth)
  with asm have a: "assembleTable db schema t = Inr (Tables s ! j)" by auto
  from a obtain cols cs' where
    k: "getConstraints db schema (Name_t t) = Inr cs'" and p: "list_all (passes (Name_t t)) cs'"
    by (rule assembleTable_Inr)
  from k assms(3) have "cs' = cs" by simp
  with p assms(4) have "passes (Name_t t) c" by (simp add: list_all_iff)
  with assms(5) show ?thesis by simp
qed

text \<open>The run depends on the database through the answers to the four queries only.\<close>

lemma tablesLoop_cong:
  "\<forall>t. assembleTable db' schema t = assembleTable db schema t \<Longrightarrow>
   tablesLoop db' schema tables idx = tablesLoop db schema tables idx"
proof (induction db schema tables idx rule: tablesLoop.induct)
  case (1 db schema tables idx)
  show ?case
  proof (cases "idx < length tables")
    case False
    then show ?thesis
      by (simp add: tablesLoop.simps [of db schema tables idx]
          tablesLoop.simps [of db' schema tables idx])
  next
    case True
    show ?thesis
    proof (cases "assembleTable db schema (tables ! idx)")
      case (Inl e)
      with True "1.prems" show ?thesis
        by (simp add: tablesLoop.simps [of db schema tables idx]
            tablesLoop.simps [of db' schema tables idx])
    next
      case (Inr t')
      from "1.IH" [OF True Inr "1.prems"] True Inr "1.prems" show ?thesis
        by (simp add: tablesLoop.simps [of db schema tables idx]
            tablesLoop.simps [of db' schema tables idx])
    qed
  qed
qed

lemma getFullSchema_cong:
  assumes "tableRows db' schema = tableRows db schema"
      and "enumRows db' schema = enumRows db schema"
      and "columnRows db' schema = columnRows db schema"
      and "constraintRows db' schema = constraintRows db schema"
  shows "getFullSchema db' schema config = getFullSchema db schema config"
proof -
  have c: "getColumns db' schema = getColumns db schema"
    by (simp add: fun_eq_iff getColumns_def assms(3))
  have k: "getConstraints db' schema = getConstraints db schema"
    by (simp add: fun_eq_iff getConstraints_def assms(4))
  have "\<forall>t. assembleTable db' schema t = assembleTable db schema t"
    unfolding assembleTable_def c k by simp
  then have l: "tablesLoop db' schema = tablesLoop db schema"
    by (simp add: fun_eq_iff tablesLoop_cong)
  have t: "getTableNames db' schema = getTableNames db schema"
    by (simp add: fun_eq_iff getTableNames_def assms(1))
  have e: "getEnums db' schema = getEnums db schema"
    by (simp add: getEnums_def assms(2))
  show ?thesis unfolding getFullSchema_def l t e by simp
qed

text \<open>Splitting at a separator undoes joining with it, when no piece contains it.\<close>

lemma splitFrom_append:
  "sep \<notin> set x \<Longrightarrow> splitFrom cur sep (x @ s) = splitFrom (cur @ x) sep s"
  by (induction x arbitrary: cur) auto

lemma Split_string_agg:
  "labels \<noteq> [] \<Longrightarrow> \<forall>l \<in> set labels. sep \<notin> set l \<Longrightarrow>
   Split (string_agg labels [sep]) sep = labels"
proof (induction labels "[sep]" rule: string_agg.induct)
  case 1
  then show ?case by simp
next
  case (2 x)
  then have "splitFrom [] sep (x @ []) = splitFrom ([] @ x) sep []"
    by (intro splitFrom_append) simp
  then show ?case by (simp add: Split_def)
next
  case (3 x y ys)
  then have x: "sep \<notin> set x" and rest: "Split (string_agg (y # ys) [sep]) sep = y # ys"
    by simp_all
  have "splitFrom [] sep (x @ sep # string_agg (y # ys) [sep]) =
        splitFrom ([] @ x) sep (sep # string_agg (y # ys) [sep])"
    using x by (rule splitFrom_append)
  with rest show ?case by (simp add: Split_def)
qed

lemma filter_names:
  "map (\<lambda>t. (Name_t t, Description_t t)) (filter (\<lambda>t. Name_t t \<notin> set exclude) (map scanTable rows)) =
   filter (\<lambda>row. fst row \<notin> set exclude) rows"
  by (induction rows) (auto simp: scanTable_def)

section \<open>The claims\<close>

text \<open>
  C6. Exclusion is exact string equality on the table name. When every row of the table
  query is read, \<open>getTableNames\<close> returns the rows, in the order of the query, whose name
  is not an element of the exclusion list; a row is kept if and only if its name equals no
  entry of the list. Strings are compared byte by byte, so an entry that is a prefix or a
  substring of a name, or differs from it in case, excludes nothing.
\<close>

theorem C6_exclusion_exact:
  assumes "tableRows db schema = Inr (map Inr rows)"
  shows "\<exists>tables. getTableNames db schema exclude = Inr tables \<and>
           tables = filter (\<lambda>t. Name_t t \<notin> set exclude) (map scanTable rows) \<and>
           (\<forall>row \<in> set rows. scanTable row \<in> set tables \<longleftrightarrow> fst row \<notin> set exclude)"
  using assms by (auto simp: getTableNames_def tableRowsLoop_ok scanTable_def)

theorem C6_exclusion_exact_witness:
  "tableRows logsDb ''public'' =
     Inr (map Inr [(''logs'', ''raw''), (''logs_archive'', ''''), (''Logs'', ''''), (''blog'', '''')]) \<and>
   getTableNames logsDb ''public'' [''log'', ''logs''] =
     Inr [scanTable (''logs_archive'', ''''), scanTable (''Logs'', ''''), scanTable (''blog'', '''')]"
proof -
  have h: "tableRows logsDb ''public'' =
     Inr (map Inr [(''logs'', ''raw''), (''logs_archive'', ''''), (''Logs'', ''''), (''blog'', '''')])"
    by (simp add: logsDb_def catalogOf_def)
  from C6_exclusion_exact [OF h, of "[''log'', ''logs'']"] h show ?thesis
    by (simp add: scanTable_def)
qed

text \<open>
  C1. In a schema returned by \<open>getFullSchema\<close>, every table has its KeyColumns and its
  Columns filtered from the column list fetched for it: KeyColumns are the columns whose
  name is in the key set, Columns the others, each in the order of the fetched list.
  Together they have the elements of the fetched list, none twice more than there and
  none missing (the two lists are disjoint, and as multisets they add up to the fetched list).
\<close>

theorem C1_partition:
  assumes "getFullSchema db schema config = Inr s" and "t \<in> set (Tables s)"
  shows "\<exists>cols cs. getColumns db schema (Name_t t) = Inr cols \<and>
           getConstraints db schema (Name_t t) = Inr cs \<and>
           KeyColumns t = filter (\<lambda>c. Name_c c \<in> keySet cs) cols \<and>
           Columns t = filter (\<lambda>c. Name_c c \<notin> keySet cs) cols \<and>
           set (KeyColumns t) \<union> set (Columns t) = set cols \<and>
           set (KeyColumns t) \<inter> set (Columns t) = {} \<and>
           mset (KeyColumns t) + mset (Columns t) = mset cols"
proof -
  from assms obtain t0 where a: "assembleTable db schema t0 = Inr t" and n: "Name_t t0 = Name_t t"
    by (rule schema_table)
  from a obtain cols cs where
    c: "getColumns db schema (Name_t t0) = Inr cols" and
    k: "getConstraints db schema (Name_t t0) = Inr cs" and
    t: "t = t0\<lparr>KeyColumns := filter (\<lambda>c. Name_c c \<in> keySet cs) cols,
              Columns := filter (\<lambda>c. Name_c c \<notin> keySet cs) cols,
              ForeignKeys := map foreignKeyOf (filter (\<lambda>c. ConstraintType c = ''FOREIGN KEY'') cs)\<rparr>"
    by (rule assembleTable_Inr)
  from t have kc: "KeyColumns t = filter (\<lambda>c. Name_c c \<in> keySet cs) cols"
    and rc: "Columns t = filter (\<lambda>c. Name_c c \<notin> keySet cs) cols" by simp_all
  have "set (KeyColumns t) \<union> set (Columns t) = set cols" unfolding kc rc by auto
  moreover have "set (KeyColumns t) \<inter> set (Columns t) = {}" unfolding kc rc by auto
  moreover have "mset (KeyColumns t) + mset (Columns t) = mset cols" unfolding kc rc by simp
  ultimately show ?thesis using c k kc rc n by auto
qed

theorem C1_partition_witness:
  "getFullSchema usersDb ''public'' noExclusions = Inr usersSchema \<and>
   usersTable \<in> set (Tables usersSchema) \<and>
   (\<exists>cols cs. getColumns usersDb ''public'' (Name_t usersTable) = Inr cols \<and>
      getConstraints usersDb ''public'' (Name_t usersTable) = Inr cs \<and>
      KeyColumns usersTable = filter (\<lambda>c. Name_c c \<in> keySet cs) cols \<and>
      Columns usersTable = filter (\<lambda>c. Name_c c \<notin> keySet cs) cols \<and>
      set (KeyColumns usersTable) \<union> set (Columns usersTable) = set cols \<and>
      set (KeyColumns usersTable) \<inter> set (Columns usersTable) = {} \<and>
      mset (KeyColumns usersTable) + mset (Columns usersTable) = mset cols)"
proof -
  have h1: "getFullSchema usersDb ''public'' noExclusions = Inr usersSchema"
    by (simp add: run_defs example_defs)
  have h2: "usersTable \<in> set (Tables usersSchema)"
    by (simp add: usersSchema_def)
  from C1_partition [OF h1 h2] h1 h2 show ?thesis by blast
qed

text \<open>
  C3. The data type shown for a column follows the formatting rule, and only a
  USER-DEFINED column is marked as a custom type: a USER-DEFINED column shows the name of
  its underlying type; a \<open>numeric\<close> column shows \<open>Number(p,s)\<close> with the texts of its
  precision and scale; a \<open>character\<close> column shows \<open>Char(n)\<close> with the text of its maximum
  length; a \<open>timestamp with time zone\<close> column shows \<open>timestamp\<close>; a column of any other
  type shows its type name unchanged. \<open>getColumns\<close> gives the rows so rendered, in the
  order of the query.
\<close>

theorem C3_type_formatting:
  "(data_type r = ''USER-DEFINED'' \<longrightarrow>
      DataType (scanColumn r) = udt_name r \<and> CustomType (scanColumn r)) \<and>
   (data_type r = ''numeric'' \<longrightarrow>
      DataType (scanColumn r) =
        ''Number('' @ cardinalText (numeric_precision r) @ '','' @ cardinalText (numeric_scale r) @ '')'' \<and>
      \<not> CustomType (scanColumn r)) \<and>
   (data_type r = ''character'' \<longrightarrow>
      DataType (scanColumn r) = ''Char('' @ cardinalText (character_maximum_length r) @ '')'' \<and>
      \<not> CustomType (scanColumn r)) \<and>
   (data_type r = ''timestamp with time zone'' \<longrightarrow>
      DataType (scanColumn r) = ''timestamp'' \<and> \<not> CustomType (scanColumn r)) \<and>
   (data_type r \<notin> {''USER-DEFINED'', ''numeric'', ''character'', ''timestamp with time zone''} \<longrightarrow>
      DataType (scanColumn r) = data_type r \<and> \<not> CustomType (scanColumn r)) \<and>
   (columnRows db schema tableName = Inr (map Inr rows) \<longrightarrow>
      getColumns db schema tableName = Inr (map scanColumn rows))"
proof -
  have "sqlConcat [Some a, x, Some b, y, Some c] =
      a @ (case x of None \<Rightarrow> [] | Some s \<Rightarrow> s) @ b @ (case y of None \<Rightarrow> [] | Some s \<Rightarrow> s) @ c"
    for a b c x y
    by (cases x; cases y) simp_all
  moreover have "sqlConcat [Some a, x, Some b] = a @ (case x of None \<Rightarrow> [] | Some s \<Rightarrow> s) @ b"
    for a b x
    by (cases x) simp_all
  moreover have "(case map_option showNat n of None \<Rightarrow> [] | Some s \<Rightarrow> s) = cardinalText n" for n
    by (cases n) (simp_all add: cardinalText_def)
  ultimately show ?thesis
    by (simp add: scanColumn_def dataTypeCase_def getColumns_def columnRowsLoop_ok)
qed

theorem C3_type_formatting_witness:
  "scanColumn roleColumn = \<lparr>Name_c = ''role'', DataType = ''role'', CustomType = True,
      Description_c = '''', IsNullable = False\<rparr> \<and>
   scanColumn priceColumn = \<lparr>Name_c = ''price'', DataType = ''Number(10,2)'', CustomType = False,
      Description_c = '''', IsNullable = False\<rparr> \<and>
   scanColumn codeColumn = \<lparr>Name_c = ''code'', DataType = ''Char(20)'', CustomType = False,
      Description_c = '''', IsNullable = False\<rparr> \<and>
   scanColumn createdColumn = \<lparr>Name_c = ''created'', DataType = ''timestamp'', CustomType = False,
      Description_c = '''', IsNullable = False\<rparr> \<and>
   scanColumn idColumn = \<lparr>Name_c = ''id'', DataType = ''integer'', CustomType = False,
      Description_c = '''', IsNullable = False\<rparr> \<and>
   getColumns productsDb ''public'' ''products'' =
     Inr (map scanColumn [idColumn, priceColumn, codeColumn, createdColumn, roleColumn])"
proof -
  have n: "showNat 10 = ''10''" "showNat 2 = ''2''" "showNat 20 = ''20''"
    by (simp_all add: showNat.simps digitChar_def)
  have rows: "columnRows productsDb ''public'' ''products'' =
      Inr (map Inr [idColumn, priceColumn, codeColumn, createdColumn, roleColumn])"
    by (simp add: productsDb_def catalogOf_def)
  have 1: "DataType (scanColumn roleColumn) = ''role'' \<and> CustomType (scanColumn roleColumn)"
    using C3_type_formatting [of roleColumn] by (simp add: roleColumn_def columnRow_def)
  have 2: "DataType (scanColumn priceColumn) = ''Number(10,2)'' \<and> \<not> CustomType (scanColumn priceColumn)"
    using C3_type_formatting [of priceColumn] n
    by (simp add: priceColumn_def columnRow_def cardinalText_def)
  have 3: "DataType (scanColumn codeColumn) = ''Char(20)'' \<and> \<not> CustomType (scanColumn codeColumn)"
    using C3_type_formatting [of codeColumn] n
    by (simp add: codeColumn_def columnRow_def cardinalText_def)
  have 4: "DataType (scanColumn createdColumn) = ''timestamp'' \<and> \<not> CustomType (scanColumn createdColumn)"
    using C3_type_formatting [of createdColumn] by (simp add: createdColumn_def columnRow_def)
  have 5: "DataType (scanColumn idColumn) = ''integer'' \<and> \<not> CustomType (scanColumn idColumn)"
    using C3_type_formatting [of idColumn] by (simp add: idColumn_def columnRow_def)
  have 6: "getColumns productsDb ''public'' ''products'' =
      Inr (map scanColumn [idColumn, priceColumn, codeColumn, createdColumn, roleColumn])"
    using C3_type_formatting [of r productsDb "''public''" "''products''"
        "[idColumn, priceColumn, codeColumn, createdColumn, roleColumn]" for r] rows
    by blast
  have names: "Name_c (scanColumn roleColumn) = ''role''" "Name_c (scanColumn priceColumn) = ''price''"
    "Name_c (scanColumn codeColumn) = ''code''" "Name_c (scanColumn createdColumn) = ''created''"
    "Name_c (scanColumn idColumn) = ''id''"
    by (simp_all add: scanColumn_def example_defs)
  have rest: "Description_c (scanColumn r) = '''' \<and> \<not> IsNullable (scanColumn r)"
    if "r \<in> {roleColumn, priceColumn, codeColumn, createdColumn, idColumn}" for r
    using that by (auto simp: scanColumn_def example_defs)
  have eq: "c = \<lparr>Name_c = n, DataType = d, CustomType = u, Description_c = '''', IsNullable = False\<rparr>"
    if "Name_c c = n" "DataType c = d" "CustomType c = u" "Description_c c = ''''" "\<not> IsNullable c"
    for c :: ColumnDefinition and n d u
    using that by (cases c) simp
  show ?thesis
    using 1 2 3 4 5 6 names rest [of roleColumn] rest [of priceColumn] rest [of codeColumn]
      rest [of createdColumn] rest [of idColumn]
    by (intro conjI eq) simp_all
qed

text \<open>
  C7. The Values of an assembled Enum come from splitting the joined labels at \<open>|\<close>. For
  the enum type \<open>status\<close> with the three labels \<open>active\<close>, \<open>in|review\<close>, \<open>done\<close> (in the
  declared order) the run returns four values, \<open>active\<close>, \<open>in\<close>, \<open>review\<close>, \<open>done\<close>, which is
  not the sequence of the labels.
\<close>

theorem C7_label_with_separator:
  "enumlabels reviewStatus = [''active'', ''in|review'', ''done''] \<and>
   getFullSchema (catalogOf [] [] [] [reviewStatus]) ''public'' noExclusions =
     Inr \<lparr>Tables = [],
          Enums = [\<lparr>Name_e = ''status'', Description_e = '''',
                    Values = [''active'', ''in'', ''review'', ''done'']\<rparr>]\<rparr>"
  by (simp add: run_defs example_defs)

text \<open>
  C10. The referenced table of a foreign key is not checked against the assembled tables.
  With the tables \<open>customers\<close> and \<open>orders\<close>, a foreign key from \<open>orders.customer_id\<close> to
  \<open>customers.id\<close>, and \<open>customers\<close> in the exclusion list, the run succeeds: the schema
  has the one table \<open>orders\<close>, whose foreign key refers to \<open>customers\<close>, the name of no
  table of the schema.
\<close>

theorem C10_dangling_reference:
  "getFullSchema (shopDb [ordersPkey, customerFkey]) ''public'' excludeCustomers = Inr ordersOnlySchema \<and>
   map Name_t (Tables ordersOnlySchema) = [''orders''] \<and>
   map ForeignKeys (Tables ordersOnlySchema) = [[customerFk]] \<and>
   RefTable customerFk = ''customers'' \<and>
   RefTable customerFk \<in> set (Exclude excludeCustomers) \<and>
   RefTable customerFk \<notin> set (map Name_t (Tables ordersOnlySchema))"
  by (simp add: run_defs example_defs ordersOnlySchema_def)

text \<open>
  C8. The assembler sorts nothing. In a schema returned by \<open>getFullSchema\<close> the tables are
  the rows of the table query that are not excluded, in the order of the query; the enums
  are the rows of the enum query in its order; and in every table KeyColumns and Columns
  are sublists of the rows of the column query (which come by ordinal position) and
  ForeignKeys follow the FOREIGN KEY constraints in the order of the constraint query.
  A database that answers the four queries in the same way gives the same schema.
\<close>

theorem C8_order_preserved:
  assumes "getFullSchema db schema config = Inr s"
  shows "\<exists>trows erows.
           tableRows db schema = Inr (map Inr trows) \<and>
           enumRows db schema = Inr (map Inr erows) \<and>
           map (\<lambda>t. (Name_t t, Description_t t)) (Tables s) =
             filter (\<lambda>row. fst row \<notin> set (Exclude config)) trows \<and>
           Enums s = map scanEnum erows \<and>
           (\<forall>t \<in> set (Tables s). \<exists>crows cs.
              columnRows db schema (Name_t t) = Inr (map Inr crows) \<and>
              constraintRows db schema (Name_t t) = Inr (map Inr cs) \<and>
              KeyColumns t = filter (\<lambda>c. Name_c c \<in> keySet cs) (map scanColumn crows) \<and>
              Columns t = filter (\<lambda>c. Name_c c \<notin> keySet cs) (map scanColumn crows) \<and>
              ForeignKeys t = map foreignKeyOf (filter (\<lambda>c. ConstraintType c = ''FOREIGN KEY'') cs)) \<and>
           (\<forall>db'. tableRows db' schema = tableRows db schema \<and>
                  enumRows db' schema = enumRows db schema \<and>
                  columnRows db' schema = columnRows db schema \<and>
                  constraintRows db' schema = constraintRows db schema \<longrightarrow>
                  getFullSchema db' schema config = Inr s)"
proof -
  from getFullSchema_Inr [OF assms] obtain tables where
    g: "getTableNames db schema (Exclude config) = Inr tables" and
    len: "length (Tables s) = length tables" and
    asm: "\<forall>j < length tables. assembleTable db schema (tables ! j) = Inr (Tables s ! j)" and
    e: "getEnums db schema = Inr (Enums s)"
    by blast
  from g obtain trows where
    tr: "tableRows db schema = Inr (map Inr trows)" and
    tabs: "tables = filter (\<lambda>t. Name_t t \<notin> set (Exclude config)) (map scanTable trows)"
    by (rule getTableNames_Inr)
  from e obtain erows where
    er: "enumRows db schema = Inr (map Inr erows)" and en: "Enums s = map scanEnum erows"
    by (rule getEnums_Inr)
  have "map (\<lambda>t. (Name_t t, Description_t t)) (Tables s) =
        map (\<lambda>t. (Name_t t, Description_t t)) tables"
  proof (rule nth_equalityI)
    show "length (map (\<lambda>t. (Name_t t, Description_t t)) (Tables s)) =
          length (map (\<lambda>t. (Name_t t, Description_t t)) tables)"
      using len by simp
  next
    fix j assume "j < length (map (\<lambda>t. (Name_t t, Description_t t)) (Tables s))"
    with len have j: "j < length tables" by simp
    with asm have "assembleTable db schema (tables ! j) = Inr (Tables s ! j)" by simp
    from assembleTable_Name [OF this] j len
    show "map (\<lambda>t. (Name_t t, Description_t t)) (Tables s) ! j =
          map (\<lambda>t. (Name_t t, Description_t t)) tables ! j"
      by simp
  qed
  with tabs have order: "map (\<lambda>t. (Name_t t, Description_t t)) (Tables s) =
      filter (\<lambda>row. fst row \<notin> set (Exclude config)) trows"
    by (simp add: filter_names)
  have each: "\<forall>t \<in> set (Tables s). \<exists>crows cs.
      columnRows db schema (Name_t t) = Inr (map Inr crows) \<and>
      constraintRows db schema (Name_t t) = Inr (map Inr cs) \<and>
      KeyColumns t = filter (\<lambda>c. Name_c c \<in> keySet cs) (map scanColumn crows) \<and>
      Columns t = filter (\<lambda>c. Name_c c \<notin> keySet cs) (map scanColumn crows) \<and>
      ForeignKeys t = map foreignKeyOf (filter (\<lambda>c. ConstraintType c = ''FOREIGN KEY'') cs)"
  proof
    fix t assume "t \<in> set (Tables s)"
    with assms obtain t0 where a: "assembleTable db schema t0 = Inr t" and n: "Name_t t0 = Name_t t"
      by (rule schema_table)
    from a obtain cols cs where
      c: "getColumns db schema (Name_t t0) = Inr cols" and
      k: "getConstraints db schema (Name_t t0) = Inr cs" and
      t: "t = t0\<lparr>KeyColumns := filter (\<lambda>c. Name_c c \<in> keySet cs) cols,
                Columns := filter (\<lambda>c. Name_c c \<notin> keySet cs) cols,
                ForeignKeys := map foreignKeyOf (filter (\<lambda>c. ConstraintType c = ''FOREIGN KEY'') cs)\<rparr>"
      by (rule assembleTable_Inr)
    from c obtain crows where
      cr: "columnRows db schema (Name_t t0) = Inr (map Inr crows)" and cols: "cols = map scanColumn crows"
      by (rule getColumns_Inr)
    from getConstraints_Inr [OF k] have kr: "constraintRows db schema (Name_t t0) = Inr (map Inr cs)" .
    from t cols have
      "KeyColumns t = filter (\<lambda>c. Name_c c \<in> keySet cs) (map scanColumn crows)"
      "Columns t = filter (\<lambda>c. Name_c c \<notin> keySet cs) (map scanColumn crows)"
      "ForeignKeys t = map foreignKeyOf (filter (\<lambda>c. ConstraintType c = ''FOREIGN KEY'') cs)"
      by simp_all
    with cr kr n show "\<exists>crows cs.
      columnRows db schema (Name_t t) = Inr (map Inr crows) \<and>
      constraintRows db schema (Name_t t) = Inr (map Inr cs) \<and>
      KeyColumns t = filter (\<lambda>c. Name_c c \<in> keySet cs) (map scanColumn crows) \<and>
      Columns t = filter (\<lambda>c. Name_c c \<notin> keySet cs) (map scanColumn crows) \<and>
      ForeignKeys t = map foreignKeyOf (filter (\<lambda>c. ConstraintType c = ''FOREIGN KEY'') cs)"
      by auto
  qed
  have same: "\<forall>db'. tableRows db' schema = tableRows db schema \<and>
      enumRows db' schema = enumRows db schema \<and>
      columnRows db' schema = columnRows db schema \<and>
      constraintRows db' schema = constraintRows db schema \<longrightarrow>
      getFullSchema db' schema config = Inr s"
    using getFullSchema_cong [of _ schema db config] assms by auto
  from tr er order en each same show ?thesis by blast
qed

theorem C8_order_preserved_witness:
  "getFullSchema usersDb ''public'' noExclusions = Inr usersSchema \<and>
   map (\<lambda>t. (Name_t t, Description_t t)) (Tables usersSchema) = [(''users'', '''')] \<and>
   map Name_e (Enums usersSchema) = [''role''] \<and>
   getFullSchema usersDbPublicOnly ''public'' noExclusions = Inr usersSchema"
proof -
  have h: "getFullSchema usersDb ''public'' noExclusions = Inr usersSchema"
    by (simp add: run_defs example_defs)
  have same: "tableRows usersDbPublicOnly ''public'' = tableRows usersDb ''public'' \<and>
      enumRows usersDbPublicOnly ''public'' = enumRows usersDb ''public'' \<and>
      columnRows usersDbPublicOnly ''public'' = columnRows usersDb ''public'' \<and>
      constraintRows usersDbPublicOnly ''public'' = constraintRows usersDb ''public''"
    by (simp add: usersDbPublicOnly_def)
  from C8_order_preserved [OF h] same
  have "getFullSchema usersDbPublicOnly ''public'' noExclusions = Inr usersSchema"
    by blast
  with h show ?thesis by (simp add: usersSchema_def usersTable_def)
qed

text \<open>
  C2. Let the scan reach a FOREIGN KEY constraint \<open>c\<close> of the table \<open>t\<close>: the tables
  listed before \<open>t\<close> are assembled, the columns and constraints of \<open>t\<close> are fetched, and the
  constraints \<open>pre\<close> before \<open>c\<close> are classified, with the key set \<open>pk\<close> and the foreign keys
  \<open>fk\<close> so far. If \<open>c\<close> has one local column \<open>l\<close>, of the table \<open>t\<close>, and one foreign column
  \<open>f\<close>, the scan adds to \<open>fk\<close> exactly one ForeignKeyDefinition, with the column of \<open>l\<close>, the
  name of \<open>c\<close>, and the table and column of \<open>f\<close>, and a schema that the run returns has it
  at that place among the foreign keys of \<open>t\<close>. If the number of local columns or of foreign
  columns of \<open>c\<close> is not one, the run returns no schema but the error that names \<open>c\<close>.
\<close>

theorem C2_foreign_key:
  assumes tabs: "getTableNames db schema (Exclude config) = Inr (before @ t # after)"
      and earlier: "\<forall>t0 \<in> set before. \<exists>t'. assembleTable db schema t0 = Inr t'"
      and cols: "getColumns db schema (Name_t t) = Inr cols"
      and cons: "getConstraints db schema (Name_t t) = Inr (pre @ c # post)"
      and pre: "constraintsLoop (Name_t t) pre Map.empty [] = Inr (pk, fk)"
      and kind: "ConstraintType c = ''FOREIGN KEY''"
  shows "(LocalColumns c = [l] \<and> ForeignColumns c = [f] \<and> Table_ci l = Name_t t \<longrightarrow>
            constraintsLoop (Name_t t) (pre @ [c]) Map.empty [] =
              Inr (pk, fk @ [\<lparr>Column_fk = Column_ci l, Name_fk = ConstraintName c,
                                RefTable = Table_ci f, RefColumn = Column_ci f\<rparr>]) \<and>
            (\<forall>s. getFullSchema db schema config = Inr s \<longrightarrow>
               ForeignKeys (Tables s ! length before) =
                 fk @ [\<lparr>Column_fk = Column_ci l, Name_fk = ConstraintName c,
                         RefTable = Table_ci f, RefColumn = Column_ci f\<rparr>]
                    @ map foreignKeyOf (filter (\<lambda>c. ConstraintType c = ''FOREIGN KEY'') post))) \<and>
         (length (LocalColumns c) \<noteq> 1 \<or> length (ForeignColumns c) \<noteq> 1 \<longrightarrow>
            getFullSchema db schema config =
              Inl (Errorf (''foreign keys should have 1 local, 1 foreign column. See ''
                           @ ConstraintName c)))"
proof (intro conjI impI allI)
  assume v: "LocalColumns c = [l] \<and> ForeignColumns c = [f] \<and> Table_ci l = Name_t t"
  with kind pre show "constraintsLoop (Name_t t) (pre @ [c]) Map.empty [] =
      Inr (pk, fk @ [\<lparr>Column_fk = Column_ci l, Name_fk = ConstraintName c,
                        RefTable = Table_ci f, RefColumn = Column_ci f\<rparr>])"
    by (simp add: constraintsLoop_append)
next
  fix s
  assume v: "LocalColumns c = [l] \<and> ForeignColumns c = [f] \<and> Table_ci l = Name_t t"
    and run: "getFullSchema db schema config = Inr s"
  from getFullSchema_Inr [OF run] tabs have
    "\<forall>j < length (before @ t # after).
       assembleTable db schema ((before @ t # after) ! j) = Inr (Tables s ! j)"
    by auto
  then have a: "assembleTable db schema t = Inr (Tables s ! length before)"
    by (auto dest: spec [of _ "length before"])
  from a obtain cols' cs' where
    k: "getConstraints db schema (Name_t t) = Inr cs'" and
    r: "Tables s ! length before = t\<lparr>KeyColumns := filter (\<lambda>c. Name_c c \<in> keySet cs') cols',
         Columns := filter (\<lambda>c. Name_c c \<notin> keySet cs') cols',
         ForeignKeys := map foreignKeyOf (filter (\<lambda>c. ConstraintType c = ''FOREIGN KEY'') cs')\<rparr>"
    by (rule assembleTable_Inr)
  from k cons have cs': "cs' = pre @ c # post" by simp
  from constraintsLoop_Inr [OF pre] have
    fk: "fk = map foreignKeyOf (filter (\<lambda>c. ConstraintType c = ''FOREIGN KEY'') pre)"
    by simp
  from v have "foreignKeyOf c = \<lparr>Column_fk = Column_ci l, Name_fk = ConstraintName c,
      RefTable = Table_ci f, RefColumn = Column_ci f\<rparr>"
    by (simp add: foreignKeyOf_def)
  with r cs' fk kind show "ForeignKeys (Tables s ! length before) =
      fk @ [\<lparr>Column_fk = Column_ci l, Name_fk = ConstraintName c,
              RefTable = Table_ci f, RefColumn = Column_ci f\<rparr>]
         @ map foreignKeyOf (filter (\<lambda>c. ConstraintType c = ''FOREIGN KEY'') post)"
    by simp
next
  assume bad: "length (LocalColumns c) \<noteq> 1 \<or> length (ForeignColumns c) \<noteq> 1"
  with kind have "constraintsLoop (Name_t t) (c # post) pk fk =
      Inl (Errorf (''foreign keys should have 1 local, 1 foreign column. See '' @ ConstraintName c))"
    by auto
  from constraint_fails_run [OF tabs earlier cols cons pre this]
  show "getFullSchema db schema config =
      Inl (Errorf (''foreign keys should have 1 local, 1 foreign column. See '' @ ConstraintName c))" .
qed

theorem C2_foreign_key_witness:
  "constraintsLoop ''orders'' [ordersPkey, customerFkey] Map.empty [] =
     Inr ([''id'' \<mapsto> ordersPkey], [customerFk]) \<and>
   (case getFullSchema (shopDb [ordersPkey, customerFkey]) ''public'' noExclusions of
      Inl e \<Rightarrow> False
    | Inr s \<Rightarrow> ForeignKeys (Tables s ! 1) = [customerFk]) \<and>
   getFullSchema (shopDb [ordersPkey, compositeFkey]) ''public'' noExclusions =
     Inl (Errorf ''foreign keys should have 1 local, 1 foreign column. See orders_customer_region_fkey'')"
proof -
  have tabs: "getTableNames (shopDb cs) ''public'' (Exclude noExclusions) =
      Inr ([customersTable] @ ordersTable # [])" for cs
    by (simp add: getTableNames_def example_defs)
  have earlier: "\<forall>t0 \<in> set [customersTable]. \<exists>t'. assembleTable (shopDb cs) ''public'' t0 = Inr t'" for cs
    by (simp add: run_defs example_defs)
  have cols: "getColumns (shopDb cs) ''public'' (Name_t ordersTable) = Inr (map scanColumn ordersColumns)" for cs
    by (simp add: getColumns_def scanTable_def scanColumn_def dataTypeCase_def example_defs)
  have cons: "getConstraints (shopDb ([ordersPkey] @ c # [])) ''public'' (Name_t ordersTable) =
      Inr ([ordersPkey] @ c # [])" for c
    by (simp add: getConstraints_def scanTable_def shopDb_def catalogOf_def ordersTable_def)
  have pre: "constraintsLoop (Name_t ordersTable) [ordersPkey] Map.empty [] =
      Inr ([''id'' \<mapsto> ordersPkey], [])"
    by (simp add: scanTable_def ordersTable_def ordersPkey_def ident_def)
  have k1: "ConstraintType customerFkey = ''FOREIGN KEY''" and k2: "ConstraintType compositeFkey = ''FOREIGN KEY''"
    by (simp_all add: customerFkey_def compositeFkey_def)
  note good = C2_foreign_key [OF tabs earlier cols cons pre k1,
      of "ident ''orders'' ''customer_id''" "ident ''customers'' ''id''"]
  note bad = C2_foreign_key [OF tabs earlier cols cons pre k2]
  have v: "LocalColumns customerFkey = [ident ''orders'' ''customer_id''] \<and>
      ForeignColumns customerFkey = [ident ''customers'' ''id''] \<and>
      Table_ci (ident ''orders'' ''customer_id'') = Name_t ordersTable"
    by (simp add: customerFkey_def ident_def ordersTable_def scanTable_def)
  obtain s where run: "getFullSchema (shopDb [ordersPkey, customerFkey]) ''public'' noExclusions = Inr s"
    by (simp add: run_defs example_defs)
  from good v have 1: "constraintsLoop ''orders'' [ordersPkey, customerFkey] Map.empty [] =
      Inr ([''id'' \<mapsto> ordersPkey], [customerFk])"
    by (simp add: ordersTable_def scanTable_def customerFk_def customerFkey_def ident_def)
  from good v run have 2: "ForeignKeys (Tables s ! 1) = [customerFk]"
    by (simp add: customerFk_def customerFkey_def ident_def)
  from bad have 3: "getFullSchema (shopDb [ordersPkey, compositeFkey]) ''public'' noExclusions =
      Inl (Errorf ''foreign keys should have 1 local, 1 foreign column. See orders_customer_region_fkey'')"
    by (simp add: compositeFkey_def)
  from 1 2 3 run show ?thesis by simp
qed

text \<open>
  C4, as stated, fails: a FOREIGN KEY constraint of \<open>orders\<close> whose single local column
  belongs to \<open>customers\<close> and which has no foreign column ends the run with the error on
  the number of columns, not with the error on the owning table.
\<close>

theorem C4_counterexample:
  "ConstraintType danglingFkey = ''FOREIGN KEY'' \<and>
   LocalColumns danglingFkey = [ident ''customers'' ''id''] \<and>
   Table_ci (ident ''customers'' ''id'') \<noteq> Name_t ordersTable \<and>
   getTableNames (shopDb [danglingFkey]) ''public'' (Exclude noExclusions) = Inr [customersTable, ordersTable] \<and>
   getConstraints (shopDb [danglingFkey]) ''public'' (Name_t ordersTable) = Inr [danglingFkey] \<and>
   getFullSchema (shopDb [danglingFkey]) ''public'' noExclusions =
     Inl (Errorf ''foreign keys should have 1 local, 1 foreign column. See orders_dangling_fkey'') \<and>
   getFullSchema (shopDb [danglingFkey]) ''public'' noExclusions \<noteq>
     Inl (Errorf ''Table orders had foreign key orders_dangling_fkey in customers'')"
  by (simp add: run_defs example_defs)

text \<open>
  C4, amended. Let the scan reach a constraint \<open>c\<close> of the table \<open>t\<close> (as in C2). If \<open>c\<close> is
  a PRIMARY KEY constraint and some local column of it belongs to another table, the run
  returns no schema but the error that names \<open>t\<close>, the constraint and the table of such a
  column, namely of the first one, \<open>bad\<close>. If \<open>c\<close> is a FOREIGN KEY constraint with exactly one local column
  \<open>l\<close> and exactly one foreign column, and \<open>l\<close> belongs to another table, the run returns no
  schema but the error that names \<open>t\<close>, the constraint and the table of \<open>l\<close>.
\<close>

theorem C4_owning_table:
  assumes tabs: "getTableNames db schema (Exclude config) = Inr (before @ t # after)"
      and earlier: "\<forall>t0 \<in> set before. \<exists>t'. assembleTable db schema t0 = Inr t'"
      and cols: "getColumns db schema (Name_t t) = Inr cols"
      and cons: "getConstraints db schema (Name_t t) = Inr (pre @ c # post)"
      and pre: "constraintsLoop (Name_t t) pre Map.empty [] = Inr (pk, fk)"
  shows "(ConstraintType c = ''PRIMARY KEY'' \<and> LocalColumns c = ok @ bad # rest \<and>
          (\<forall>col \<in> set ok. Table_ci col = Name_t t) \<and> Table_ci bad \<noteq> Name_t t \<longrightarrow>
            getFullSchema db schema config =
              Inl (Errorf (''Table '' @ Name_t t @ '' had primary key '' @ ConstraintName c
                           @ '' in '' @ Table_ci bad))) \<and>
         (ConstraintType c = ''PRIMARY KEY'' \<and>
          (\<exists>col \<in> set (LocalColumns c). Table_ci col \<noteq> Name_t t) \<longrightarrow>
            (\<exists>bad \<in> set (LocalColumns c). Table_ci bad \<noteq> Name_t t \<and>
               getFullSchema db schema config =
                 Inl (Errorf (''Table '' @ Name_t t @ '' had primary key '' @ ConstraintName c
                              @ '' in '' @ Table_ci bad)))) \<and>
         (ConstraintType c = ''FOREIGN KEY'' \<and> LocalColumns c = [l] \<and>
          length (ForeignColumns c) = 1 \<and> Table_ci l \<noteq> Name_t t \<longrightarrow>
            getFullSchema db schema config =
              Inl (Errorf (''Table '' @ Name_t t @ '' had foreign key '' @ ConstraintName c
                           @ '' in '' @ Table_ci l)))"
proof -
  have first: "getFullSchema db schema config =
      Inl (Errorf (''Table '' @ Name_t t @ '' had primary key '' @ ConstraintName c
                   @ '' in '' @ Table_ci b))"
    if h: "ConstraintType c = ''PRIMARY KEY''" "LocalColumns c = ys @ b # zs"
      "\<forall>col \<in> set ys. Table_ci col = Name_t t" "Table_ci b \<noteq> Name_t t" for ys b zs
  proof -
    from h(3,4) have "primaryKeyLoop (Name_t t) c (ys @ b # zs) pk' =
        Inl (Errorf (''Table '' @ Name_t t @ '' had primary key '' @ ConstraintName c
                     @ '' in '' @ Table_ci b))" for pk'
      by (intro primaryKeyLoop_fail) simp_all
    with h(1,2) have "constraintsLoop (Name_t t) (c # post) pk fk =
        Inl (Errorf (''Table '' @ Name_t t @ '' had primary key '' @ ConstraintName c
                     @ '' in '' @ Table_ci b))"
      by simp
    from constraint_fails_run [OF tabs earlier cols cons pre this] show ?thesis .
  qed
  show ?thesis
  proof (intro conjI impI)
    assume "ConstraintType c = ''PRIMARY KEY'' \<and> LocalColumns c = ok @ bad # rest \<and>
      (\<forall>col \<in> set ok. Table_ci col = Name_t t) \<and> Table_ci bad \<noteq> Name_t t"
    then show "getFullSchema db schema config =
        Inl (Errorf (''Table '' @ Name_t t @ '' had primary key '' @ ConstraintName c
                     @ '' in '' @ Table_ci bad))"
      by (intro first [of ok bad rest]) simp_all
  next
    assume h: "ConstraintType c = ''PRIMARY KEY'' \<and>
      (\<exists>col \<in> set (LocalColumns c). Table_ci col \<noteq> Name_t t)"
    then obtain ys b zs where d: "LocalColumns c = ys @ b # zs" "Table_ci b \<noteq> Name_t t"
      "\<forall>col \<in> set ys. \<not> Table_ci col \<noteq> Name_t t"
      using split_list_first_prop [of "LocalColumns c" "\<lambda>col. Table_ci col \<noteq> Name_t t"]
      by blast
    with h have "getFullSchema db schema config =
        Inl (Errorf (''Table '' @ Name_t t @ '' had primary key '' @ ConstraintName c
                     @ '' in '' @ Table_ci b))"
      by (intro first [of ys b zs]) simp_all
    with d show "\<exists>bad \<in> set (LocalColumns c). Table_ci bad \<noteq> Name_t t \<and>
        getFullSchema db schema config =
          Inl (Errorf (''Table '' @ Name_t t @ '' had primary key '' @ ConstraintName c
                       @ '' in '' @ Table_ci bad))"
      by auto
  next
  assume h: "ConstraintType c = ''FOREIGN KEY'' \<and> LocalColumns c = [l] \<and>
    length (ForeignColumns c) = 1 \<and> Table_ci l \<noteq> Name_t t"
  then have "constraintsLoop (Name_t t) (c # post) pk fk =
      Inl (Errorf (''Table '' @ Name_t t @ '' had foreign key '' @ ConstraintName c
                   @ '' in '' @ Table_ci l))"
    by simp
  from constraint_fails_run [OF tabs earlier cols cons pre this]
  show "getFullSchema db schema config =
      Inl (Errorf (''Table '' @ Name_t t @ '' had foreign key '' @ ConstraintName c
                   @ '' in '' @ Table_ci l))" .
  qed
qed

theorem C4_owning_table_witness:
  "getFullSchema (shopDb [strayPkey]) ''public'' noExclusions =
     Inl (Errorf ''Table orders had primary key orders_pkey in customers'') \<and>
   getFullSchema (shopDb [ordersPkey, strayFkey]) ''public'' noExclusions =
     Inl (Errorf ''Table orders had foreign key orders_stray_fkey in customers'')"
proof -
  have tabs: "getTableNames (shopDb cs) ''public'' (Exclude noExclusions) =
      Inr ([customersTable] @ ordersTable # [])" for cs
    by (simp add: getTableNames_def example_defs)
  have earlier: "\<forall>t0 \<in> set [customersTable]. \<exists>t'. assembleTable (shopDb cs) ''public'' t0 = Inr t'" for cs
    by (simp add: run_defs example_defs)
  have cols: "getColumns (shopDb cs) ''public'' (Name_t ordersTable) = Inr (map scanColumn ordersColumns)" for cs
    by (simp add: getColumns_def scanTable_def scanColumn_def dataTypeCase_def example_defs)
  have cons0: "getConstraints (shopDb ([] @ strayPkey # [])) ''public'' (Name_t ordersTable) =
      Inr ([] @ strayPkey # [])"
    by (simp add: getConstraints_def scanTable_def shopDb_def catalogOf_def ordersTable_def)
  have cons1: "getConstraints (shopDb ([ordersPkey] @ strayFkey # [])) ''public'' (Name_t ordersTable) =
      Inr ([ordersPkey] @ strayFkey # [])"
    by (simp add: getConstraints_def scanTable_def shopDb_def catalogOf_def ordersTable_def)
  have pre0: "constraintsLoop (Name_t ordersTable) [] Map.empty [] = Inr (Map.empty, [])"
    by simp
  have pre1: "constraintsLoop (Name_t ordersTable) [ordersPkey] Map.empty [] =
      Inr ([''id'' \<mapsto> ordersPkey], [])"
    by (simp add: scanTable_def ordersTable_def ordersPkey_def ident_def)
  have p: "ConstraintType strayPkey = ''PRIMARY KEY'' \<and>
      LocalColumns strayPkey = [ident ''orders'' ''id''] @ ident ''customers'' ''id'' # [] \<and>
      (\<forall>col \<in> set [ident ''orders'' ''id'']. Table_ci col = Name_t ordersTable) \<and>
      Table_ci (ident ''customers'' ''id'') \<noteq> Name_t ordersTable"
    by (simp add: strayPkey_def ident_def ordersTable_def scanTable_def)
  have f: "ConstraintType strayFkey = ''FOREIGN KEY'' \<and>
      LocalColumns strayFkey = [ident ''customers'' ''id''] \<and>
      length (ForeignColumns strayFkey) = 1 \<and>
      Table_ci (ident ''customers'' ''id'') \<noteq> Name_t ordersTable"
    by (simp add: strayFkey_def ident_def ordersTable_def scanTable_def)
  from C4_owning_table [OF tabs earlier cols cons0 pre0,
      of "[ident ''orders'' ''id'']" "ident ''customers'' ''id''" "[]"] p
  have 1: "getFullSchema (shopDb [strayPkey]) ''public'' noExclusions =
      Inl (Errorf ''Table orders had primary key orders_pkey in customers'')"
    by (simp add: strayPkey_def ident_def ordersTable_def scanTable_def)
  from C4_owning_table [OF tabs earlier cols cons1 pre1,
      of _ _ _ "ident ''customers'' ''id''"] f
  have 2: "getFullSchema (shopDb [ordersPkey, strayFkey]) ''public'' noExclusions =
      Inl (Errorf ''Table orders had foreign key orders_stray_fkey in customers'')"
    by (simp add: strayFkey_def ident_def ordersTable_def scanTable_def)
  from 1 2 show ?thesis by simp
qed

text \<open>
  C5. A constraint \<open>c\<close> of a listed table whose type is neither \<open>PRIMARY KEY\<close> nor
  \<open>FOREIGN KEY\<close> makes the run fail: no schema is returned. When the scan reaches \<open>c\<close>
  (the tables before are assembled, the columns of the table are fetched and the
  constraints before \<open>c\<close> are classified), the error is the one that names the type of \<open>c\<close>.
  The scan decides on the type it reads, whatever the constraint query returned.
\<close>

theorem C5_unknown_constraint:
  assumes tabs: "getTableNames db schema (Exclude config) = Inr (before @ t # after)"
      and cons: "getConstraints db schema (Name_t t) = Inr (pre @ c # post)"
      and notpk: "ConstraintType c \<noteq> ''PRIMARY KEY''"
      and notfk: "ConstraintType c \<noteq> ''FOREIGN KEY''"
  shows "(\<exists>e. getFullSchema db schema config = Inl e) \<and>
         ((\<forall>t0 \<in> set before. \<exists>t'. assembleTable db schema t0 = Inr t') \<and>
          (\<exists>cols. getColumns db schema (Name_t t) = Inr cols) \<and>
          (\<exists>pk fk. constraintsLoop (Name_t t) pre Map.empty [] = Inr (pk, fk)) \<longrightarrow>
            getFullSchema db schema config =
              Inl (Errorf (''Unknown Constraint: '' @ ConstraintType c)))"
proof (intro conjI impI)
  from notpk notfk have "\<not> passes (Name_t t) c" by (simp add: passes_def)
  with tabs cons show "\<exists>e. getFullSchema db schema config = Inl e"
    by (intro run_fails_if_not_passes [of db schema config "before @ t # after" t "pre @ c # post" c])
      simp_all
next
  assume reach: "(\<forall>t0 \<in> set before. \<exists>t'. assembleTable db schema t0 = Inr t') \<and>
    (\<exists>cols. getColumns db schema (Name_t t) = Inr cols) \<and>
    (\<exists>pk fk. constraintsLoop (Name_t t) pre Map.empty [] = Inr (pk, fk))"
  then obtain cols pk fk where
    earlier: "\<forall>t0 \<in> set before. \<exists>t'. assembleTable db schema t0 = Inr t'" and
    cols: "getColumns db schema (Name_t t) = Inr cols" and
    pre: "constraintsLoop (Name_t t) pre Map.empty [] = Inr (pk, fk)"
    by blast
  from notpk notfk have "constraintsLoop (Name_t t) (c # post) pk fk =
      Inl (Errorf (''Unknown Constraint: '' @ ConstraintType c))"
    by simp
  from constraint_fails_run [OF tabs earlier cols cons pre this]
  show "getFullSchema db schema config = Inl (Errorf (''Unknown Constraint: '' @ ConstraintType c))" .
qed

theorem C5_unknown_constraint_witness:
  "getFullSchema (shopDb [ordersPkey, uniqueRegion]) ''public'' noExclusions =
     Inl (Errorf ''Unknown Constraint: UNIQUE'')"
proof -
  have tabs: "getTableNames (shopDb cs) ''public'' (Exclude noExclusions) =
      Inr ([customersTable] @ ordersTable # [])" for cs
    by (simp add: getTableNames_def example_defs)
  have cons: "getConstraints (shopDb ([ordersPkey] @ uniqueRegion # [])) ''public'' (Name_t ordersTable) =
      Inr ([ordersPkey] @ uniqueRegion # [])"
    by (simp add: getConstraints_def scanTable_def shopDb_def catalogOf_def ordersTable_def)
  have k: "ConstraintType uniqueRegion \<noteq> ''PRIMARY KEY''" "ConstraintType uniqueRegion \<noteq> ''FOREIGN KEY''"
    by (simp_all add: uniqueRegion_def)
  have reach: "(\<forall>t0 \<in> set [customersTable].
        \<exists>t'. assembleTable (shopDb [ordersPkey, uniqueRegion]) ''public'' t0 = Inr t') \<and>
      (\<exists>cols. getColumns (shopDb [ordersPkey, uniqueRegion]) ''public'' (Name_t ordersTable) = Inr cols) \<and>
      (\<exists>pk fk. constraintsLoop (Name_t ordersTable) [ordersPkey] Map.empty [] = Inr (pk, fk))"
    by (simp add: run_defs example_defs)
  from C5_unknown_constraint [OF tabs cons k] reach show ?thesis
    by (simp add: uniqueRegion_def)
qed

text \<open>
  C9, as stated, fails: the table \<open>orders\<close> with no PRIMARY KEY constraint and a FOREIGN
  KEY constraint of two local columns is not assembled; the run ends with the error on
  the number of columns.
\<close>

theorem C9_counterexample:
  "getConstraints (shopDb [compositeFkey]) ''public'' (Name_t ordersTable) = Inr [compositeFkey] \<and>
   map ConstraintType [compositeFkey] = [''FOREIGN KEY''] \<and>
   assembleTable (shopDb [compositeFkey]) ''public'' ordersTable =
     Inl (Errorf ''foreign keys should have 1 local, 1 foreign column. See orders_customer_region_fkey'') \<and>
   getFullSchema (shopDb [compositeFkey]) ''public'' noExclusions =
     Inl (Errorf ''foreign keys should have 1 local, 1 foreign column. See orders_customer_region_fkey'')"
  by (simp add: run_defs example_defs)

text \<open>
  C9, amended. Let the columns and the constraints of a table be fetched, let no
  constraint be a PRIMARY KEY, and let every constraint pass the scan (so each is a
  FOREIGN KEY with one local column, of this table, and one foreign column). Then the
  table is assembled without error, with empty KeyColumns, with all its fetched columns
  in Columns in their order, and with one foreign key for each constraint. If moreover the
  other listed tables are assembled and the enum query succeeds, the run returns a schema
  with this table at its place.
\<close>

theorem C9_no_primary_key:
  assumes cols: "getColumns db schema (Name_t t) = Inr cols"
      and cons: "getConstraints db schema (Name_t t) = Inr cs"
      and nopk: "\<forall>c \<in> set cs. ConstraintType c \<noteq> ''PRIMARY KEY''"
      and ok: "\<forall>c \<in> set cs. passes (Name_t t) c"
  shows "assembleTable db schema t =
           Inr (t\<lparr>KeyColumns := [], Columns := cols, ForeignKeys := map foreignKeyOf cs\<rparr>) \<and>
         (getTableNames db schema (Exclude config) = Inr (before @ t # after) \<and>
          (\<forall>t0 \<in> set (before @ after). \<exists>t'. assembleTable db schema t0 = Inr t') \<and>
          (\<exists>enums. getEnums db schema = Inr enums) \<longrightarrow>
            (\<exists>s. getFullSchema db schema config = Inr s \<and>
                 Tables s ! length before =
                   t\<lparr>KeyColumns := [], Columns := cols, ForeignKeys := map foreignKeyOf cs\<rparr>))"
proof -
  from ok have "list_all (passes (Name_t t)) cs" by (simp add: list_all_iff)
  from constraintsLoop_ok [OF this, of Map.empty "[]"] obtain pk where
    l: "constraintsLoop (Name_t t) cs Map.empty [] =
        Inr (pk, map foreignKeyOf (filter (\<lambda>c. ConstraintType c = ''FOREIGN KEY'') cs))"
    by auto
  from nopk have "keySet cs = {}" by (auto simp: keySet_def filter_empty_conv)
  with constraintsLoop_Inr [OF l] have empty: "dom pk = {}" by simp
  from nopk ok have "filter (\<lambda>c. ConstraintType c = ''FOREIGN KEY'') cs = cs"
    by (auto simp: passes_def filter_id_conv)
  with l have l': "constraintsLoop (Name_t t) cs Map.empty [] = Inr (pk, map foreignKeyOf cs)"
    by simp
  from cols cons l' empty have a: "assembleTable db schema t =
      Inr (t\<lparr>KeyColumns := [], Columns := cols, ForeignKeys := map foreignKeyOf cs\<rparr>)"
    by (simp add: assembleTable_def columnsLoop_eq)
  have "\<exists>s. getFullSchema db schema config = Inr s \<and>
      Tables s ! length before =
        t\<lparr>KeyColumns := [], Columns := cols, ForeignKeys := map foreignKeyOf cs\<rparr>"
    if tabs: "getTableNames db schema (Exclude config) = Inr (before @ t # after)"
      and others: "\<forall>t0 \<in> set (before @ after). \<exists>t'. assembleTable db schema t0 = Inr t'"
      and enums: "\<exists>enums. getEnums db schema = Inr enums"
  proof -
    have "\<forall>j. 0 \<le> j \<and> j < length (before @ t # after) \<longrightarrow>
        (\<exists>t'. assembleTable db schema ((before @ t # after) ! j) = Inr t')"
    proof (intro allI impI)
      fix j assume "0 \<le> j \<and> j < length (before @ t # after)"
      then have "(before @ t # after) ! j \<in> set (before @ t # after)"
        by (intro nth_mem) simp
      with others a show "\<exists>t'. assembleTable db schema ((before @ t # after) ! j) = Inr t'"
        by auto
    qed
    from tablesLoop_ok [OF this] obtain ts' where
      loop: "tablesLoop db schema (before @ t # after) 0 = Inr ts'" by blast
    from enums obtain es where es: "getEnums db schema = Inr es" by blast
    from tabs loop es have run: "getFullSchema db schema config = Inr \<lparr>Tables = ts', Enums = es\<rparr>"
      by (simp add: getFullSchema_def)
    have "length before < length (before @ t # after)" by simp
    with tablesLoop_Inr [OF loop] have
      "assembleTable db schema ((before @ t # after) ! length before) = Inr (ts' ! length before)"
      by blast
    with a have "ts' ! length before =
        t\<lparr>KeyColumns := [], Columns := cols, ForeignKeys := map foreignKeyOf cs\<rparr>"
      by simp
    with run show ?thesis by simp
  qed
  with a show ?thesis by blast
qed

theorem C9_no_primary_key_witness:
  "assembleTable (shopDb [customerFkey]) ''public'' ordersTable =
     Inr (ordersTable\<lparr>KeyColumns := [], Columns := map scanColumn ordersColumns,
                      ForeignKeys := [customerFk]\<rparr>) \<and>
   (case getFullSchema (shopDb [customerFkey]) ''public'' noExclusions of
      Inl e \<Rightarrow> False
    | Inr s \<Rightarrow> Tables s ! 1 =
        ordersTable\<lparr>KeyColumns := [], Columns := map scanColumn ordersColumns,
                     ForeignKeys := [customerFk]\<rparr>)"
proof -
  have cols: "getColumns (shopDb [customerFkey]) ''public'' (Name_t ordersTable) =
      Inr (map scanColumn ordersColumns)"
    by (simp add: getColumns_def scanTable_def scanColumn_def dataTypeCase_def example_defs)
  have cons: "getConstraints (shopDb [customerFkey]) ''public'' (Name_t ordersTable) = Inr [customerFkey]"
    by (simp add: getConstraints_def scanTable_def shopDb_def catalogOf_def ordersTable_def)
  have nopk: "\<forall>c \<in> set [customerFkey]. ConstraintType c \<noteq> ''PRIMARY KEY''"
    by (simp add: customerFkey_def)
  have ok: "\<forall>c \<in> set [customerFkey]. passes (Name_t ordersTable) c"
    by (simp add: passes_def customerFkey_def ident_def ordersTable_def scanTable_def)
  have rest: "getTableNames (shopDb [customerFkey]) ''public'' (Exclude noExclusions) =
        Inr ([customersTable] @ ordersTable # []) \<and>
      (\<forall>t0 \<in> set ([customersTable] @ []).
         \<exists>t'. assembleTable (shopDb [customerFkey]) ''public'' t0 = Inr t') \<and>
      (\<exists>enums. getEnums (shopDb [customerFkey]) ''public'' = Inr enums)"
    by (simp add: run_defs example_defs)
  have fk: "map foreignKeyOf [customerFkey] = [customerFk]"
    by (simp add: foreignKeyOf_def customerFkey_def customerFk_def ident_def)
  from C9_no_primary_key [OF cols cons nopk ok, of noExclusions "[customersTable]" "[]"] rest fk
  show ?thesis by auto
qed

end
